theory Spec2Isabelle
  imports Main "HOL-Library.Word"
begin

unbundle bit_operations_syntax

section \<open>Library functions used by the tag filter\<close>

text \<open>
  Go strings are byte sequences; they are modelled as \<^typ>\<open>string\<close>, one \<^typ>\<open>char\<close> per
  byte. The functions of package \<^verbatim>\<open>strings\<close> below are exact on ASCII text, where runes
  and bytes coincide.
\<close>

fun strings_HasPrefix :: "string \<Rightarrow> string \<Rightarrow> bool" where
  "strings_HasPrefix s [] = True"
| "strings_HasPrefix [] (p # ps) = False"
| "strings_HasPrefix (c # cs) (p # ps) = (c = p \<and> strings_HasPrefix cs ps)"

fun strings_Contains :: "string \<Rightarrow> string \<Rightarrow> bool" where
  "strings_Contains [] sub = (sub = [])"
| "strings_Contains (c # cs) sub = (strings_HasPrefix (c # cs) sub \<or> strings_Contains cs sub)"

text \<open>\<^verbatim>\<open>strings.Index\<close>: the byte offset of the first occurrence, \<open>-1\<close> when there is none.\<close>

fun strings_Index :: "string \<Rightarrow> string \<Rightarrow> int" where
  "strings_Index [] sub = (if sub = [] then 0 else - 1)"
| "strings_Index (c # cs) sub =
     (if strings_HasPrefix (c # cs) sub then 0
      else (let r = strings_Index cs sub in if r < 0 then - 1 else r + 1))"

text \<open>
  \<^verbatim>\<open>strings.Replace(s, old, new, -1)\<close> for a non-empty \<open>old\<close>: the occurrences are found
  from the left and do not overlap; the text after a replaced occurrence is scanned
  again from its first byte, the replacement itself is never scanned.
\<close>

fun replaceAll :: "string \<Rightarrow> string \<Rightarrow> string \<Rightarrow> string" where
  "replaceAll old new [] = []"
| "replaceAll old new (c # cs) =
     (if strings_HasPrefix (c # cs) old
      then new @ replaceAll old new (drop (length old - 1) cs)
      else c # replaceAll old new cs)"

text \<open>
  With an empty \<open>old\<close>, \<^verbatim>\<open>strings.Replace\<close> inserts \<open>new\<close> before the first byte and after
  every rune.
\<close>

definition strings_Replace :: "string \<Rightarrow> string \<Rightarrow> string \<Rightarrow> string" where
  "strings_Replace s old new =
     (if old = [] then new @ concat (map (\<lambda>c. c # new) s) else replaceAll old new s)"

text \<open>The white space of ASCII, which \<^verbatim>\<open>strings.TrimSpace\<close> removes at both ends.\<close>

definition isSpace :: "char \<Rightarrow> bool" where
  "isSpace c = (c = CHR '' '' \<or> c = CHR 0x09 \<or> c = CHR 0x0A \<or> c = CHR 0x0B
                \<or> c = CHR 0x0C \<or> c = CHR 0x0D)"

definition strings_TrimSpace :: "string \<Rightarrow> string" where
  "strings_TrimSpace s = rev (dropWhile isSpace (rev (dropWhile isSpace s)))"

text \<open>
  \<^verbatim>\<open>strings.FieldsFunc\<close>: the maximal non-empty runs of bytes on which \<open>f\<close> is false; \<open>cur\<close>
  is the field being read.
\<close>

fun fieldsFrom :: "(char \<Rightarrow> bool) \<Rightarrow> string \<Rightarrow> string \<Rightarrow> string list" where
  "fieldsFrom f cur [] = (if cur = [] then [] else [cur])"
| "fieldsFrom f cur (c # cs) =
     (if f c then (if cur = [] then [] else [cur]) @ fieldsFrom f [] cs
      else fieldsFrom f (cur @ [c]) cs)"

definition strings_FieldsFunc :: "string \<Rightarrow> (char \<Rightarrow> bool) \<Rightarrow> string list" where
  "strings_FieldsFunc s f = fieldsFrom f [] s"

definition strconv_FormatBool :: "bool \<Rightarrow> string" where
  "strconv_FormatBool b = (if b then ''true'' else ''false'')"

section \<open>The constant-expression evaluator\<close>

text \<open>
  Modelled from the spec: \<^verbatim>\<open>types.Eval\<close> and \<^verbatim>\<open>exact.Uint64Val\<close> belong to the library
  \<^verbatim>\<open>golang.org/x/tools/go\<close>, which is not part of the sources. The spec's section on
  boolean reduction describes what the filter uses of it: after \<open>true\<close> and \<open>false\<close> are
  mapped to \<open>1\<close> and \<open>0\<close>, the text is read as a Go constant expression over
  integers with bitwise \<open>&\<close> and \<open>|\<close>, where \<open>&\<close> binds tighter than \<open>|\<close>, and parentheses.

  The model covers the expressions written with decimal and octal integer literals, the
  binary operators \<open>&\<close> and \<open>|\<close>, parentheses, \<open>!\<close> and blanks (space, tab, carriage
  return). In this fragment Go reports an error in exactly these cases, and
  so does the model: the text is not an expression (it is empty, an operand or an operator
  is missing, a parenthesis is not matched, a literal with a leading zero has a digit 8 or
  9, a second \<open>&\<close> or \<open>|\<close> stands where an operand is expected, as in \<open>&&\<close> and \<open>||\<close>,
  whose operands would have to be boolean), or it applies \<open>!\<close>, which is
  not defined on integer constants. Any other character is outside the fragment, and the
  model answers with an error there as well.
\<close>

datatype token = TokInt int | TokAnd | TokOr | TokLParen | TokRParen | TokNot

definition isDigit :: "char \<Rightarrow> bool" where
  "isDigit c = (c \<in> set ''0123456789'')"

definition digitVal :: "char \<Rightarrow> int" where
  "digitVal c = of_char c - 48"

text \<open>
  The value of an integer literal: decimal, or octal when it has more than one digit and
  starts with \<open>0\<close>.
\<close>

definition literalValue :: "string \<Rightarrow> int option" where
  "literalValue ds =
     (if length ds > 1 \<and> hd ds = CHR ''0''
      then (if list_all (\<lambda>d. digitVal d < 8) ds
            then Some (foldl (\<lambda>n d. 8 * n + digitVal d) 0 ds) else None)
      else Some (foldl (\<lambda>n d. 10 * n + digitVal d) 0 ds))"

text \<open>Emitting the literal read so far (\<open>num\<close>, if any) in front of the remaining tokens.\<close>

definition emitLiteral :: "string \<Rightarrow> token list option \<Rightarrow> token list option" where
  "emitLiteral num rest =
     (if num = [] then rest
      else (case literalValue num of
              None \<Rightarrow> None
            | Some n \<Rightarrow> map_option ((#) (TokInt n)) rest))"

definition operatorToken :: "char \<Rightarrow> token option" where
  "operatorToken c =
     (if c = CHR ''&'' then Some TokAnd
      else if c = CHR ''|'' then Some TokOr
      else if c = CHR ''('' then Some TokLParen
      else if c = CHR '')'' then Some TokRParen
      else if c = CHR ''!'' then Some TokNot
      else None)"

fun scanTokens :: "string \<Rightarrow> string \<Rightarrow> token list option" where
  "scanTokens num [] = emitLiteral num (Some [])"
| "scanTokens num (c # cs) =
     (if isDigit c then scanTokens (num @ [c]) cs
      else if c = CHR '' '' \<or> c = CHR 0x09 \<or> c = CHR 0x0D
      then emitLiteral num (scanTokens [] cs)
      else (case operatorToken c of
              None \<Rightarrow> None
            | Some t \<Rightarrow> emitLiteral num (map_option ((#) t) (scanTokens [] cs))))"

text \<open>
  Evaluation runs over the tokens once. A frame holds, for one parenthesis level, the
  value of the disjuncts already closed by \<open>|\<close> and the value of the conjuncts already
  closed by \<open>&\<close> in the current disjunct; the enclosing levels are on the stack.
  In state \<open>Operand\<close> an operand is expected, in state \<open>Operator p\<close> the current product
  has the value \<open>p\<close> and an operator, a closing parenthesis or the end is expected.
\<close>

type_synonym frame = "int option \<times> int option"

datatype pstate = Operand | Operator int

fun withAnd :: "int option \<Rightarrow> int \<Rightarrow> int" where
  "withAnd None v = v"
| "withAnd (Some a) v = a AND v"

fun withOr :: "int option \<Rightarrow> int \<Rightarrow> int" where
  "withOr None v = v"
| "withOr (Some a) v = a OR v"

fun evalTokens :: "pstate \<Rightarrow> frame \<Rightarrow> frame list \<Rightarrow> token list \<Rightarrow> int option" where
  "evalTokens Operand fr st (TokInt n # ts) = evalTokens (Operator (withAnd (snd fr) n)) fr st ts"
| "evalTokens Operand fr st (TokLParen # ts) = evalTokens Operand (None, None) (fr # st) ts"
| "evalTokens Operand fr st ts = None"
| "evalTokens (Operator p) fr st (TokAnd # ts) = evalTokens Operand (fst fr, Some p) st ts"
| "evalTokens (Operator p) fr st (TokOr # ts) =
     evalTokens Operand (Some (withOr (fst fr) p), None) st ts"
| "evalTokens (Operator p) fr (parent # st) (TokRParen # ts) =
     evalTokens (Operator (withAnd (snd parent) (withOr (fst fr) p))) parent st ts"
| "evalTokens (Operator p) fr [] [] = Some (withOr (fst fr) p)"
| "evalTokens (Operator p) fr st ts = None"

text \<open>
  Modelled from the spec: \<^verbatim>\<open>types.Eval\<close>, of a library that is not among the sources, on
  the fragment described above; \<open>None\<close> is an error.
\<close>

definition types_Eval :: "string \<Rightarrow> int option" where
  "types_Eval s =
     (case scanTokens [] s of
        None \<Rightarrow> None
      | Some ts \<Rightarrow> evalTokens Operand (None, None) [] ts)"

text \<open>
  Modelled from the spec: \<^verbatim>\<open>exact.Uint64Val\<close>, of a library that is not among the sources,
  gives the value as an unsigned 64-bit integer. The values of the fragment are not
  negative; of a value that does not fit, the low 64 bits are returned.
\<close>

definition exact_Uint64Val :: "int \<Rightarrow> 64 word" where
  "exact_Uint64Val v = word_of_int v"

section \<open>The tag expression filter (package filter)\<close>

datatype error = InvalidExpression

record ScenarioFilterBasedOnTags =
  specTags :: "string list"
  tagExpression :: string

definition newScenarioFilterBasedOnTags :: "string list \<Rightarrow> string \<Rightarrow> ScenarioFilterBasedOnTags" where
  "newScenarioFilterBasedOnTags tags tagExp = \<lparr>specTags = tags, tagExpression = tagExp\<rparr>"

text \<open>The method overwrites the filter's expression with its normal form.\<close>

definition replaceSpecialChar :: "ScenarioFilterBasedOnTags \<Rightarrow> ScenarioFilterBasedOnTags" where
  "replaceSpecialChar flt =
     flt\<lparr>tagExpression :=
       strings_Replace (strings_Replace (strings_Replace (strings_Replace
         (tagExpression flt) '' '' '''') '','' ''&'') ''&&'' ''&'') ''||'' ''|''\<rparr>"

text \<open>
  The two regular expressions are the literal words \<open>true\<close> and \<open>false\<close>, and the
  replacements have no \<open>$\<close>, so \<^verbatim>\<open>ReplaceAllString\<close> replaces the occurrences from the
  left as \<^verbatim>\<open>strings.Replace\<close> does. The result is the pair the method returns: the
  value is \<open>False\<close> whenever there is an error.
\<close>

definition evaluateExp :: "string \<Rightarrow> bool \<times> error option" where
  "evaluateExp expr =
     (let s = strings_Replace (strings_Replace expr ''true'' ''1'') ''false'' ''0''
      in case types_Eval s of
           None \<Rightarrow> (False, Some InvalidExpression)
         | Some val \<Rightarrow> (let res = exact_Uint64Val val in (if res = 1 then True else False, None)))"

text \<open>
  The scan for the closing parenthesis: \<open>depth\<close> is the length of \<open>bracketStack\<close>, \<open>i\<close> the
  index of the first byte of the text still to be read; the result is the value of \<open>i\<close>
  when the loop ends.
\<close>

fun scanBrackets :: "string \<Rightarrow> nat \<Rightarrow> nat \<Rightarrow> nat" where
  "scanBrackets [] depth i = i"
| "scanBrackets (c # cs) depth i =
     (let depth' = (if c = CHR ''('' then depth + 1
                    else if c = CHR '')'' then depth - 1 else depth)
      in if depth' = 0 then i else scanBrackets cs depth' (i + 1))"

text \<open>
  The method is called only on a text in which \<open>!(\<close> occurs. The scan then starts on the
  \<open>(\<close> of the first \<open>!(\<close>, so the stack is not empty when a \<open>)\<close> is met and the slice
  bounds are in order.
\<close>

definition resolveBracketExpression :: "string \<Rightarrow> string" where
  "resolveBracketExpression expr =
     (let indexOfOpenBracket = nat (strings_Index expr ''!('' + 1);
          i = scanBrackets (drop indexOfOpenBracket expr) 0 indexOfOpenBracket
      in take (i - (indexOfOpenBracket + 1)) (drop (indexOfOpenBracket + 1) expr))"

lemma strings_Contains_nonempty: "strings_Contains s (p # ps) \<Longrightarrow> s \<noteq> []"
  by (cases s) auto

lemma resolveBracketExpression_shorter:
  assumes "s \<noteq> []"
  shows "length (resolveBracketExpression s) < length s"
proof -
  have "length (take n (drop (k + 1) s)) < length s" for n k :: nat
    using assms by (simp add: min_less_iff_disj)
  then show ?thesis
    unfolding resolveBracketExpression_def Let_def by blast
qed

text \<open>Where \<open>!(\<close> occurs, the scan starts on the \<open>(\<close> of its first occurrence.\<close>

lemma strings_Index_found: "strings_Contains s sub \<Longrightarrow> 0 \<le> strings_Index s sub"
  by (induction s) (auto simp: Let_def)

lemma scan_starts_on_bracket:
  "strings_Contains s ''!('' \<Longrightarrow>
     strings_HasPrefix (drop (nat (strings_Index s ''!('' + 1)) s) ''(''"
proof (induction s)
  case Nil
  then show ?case by simp
next
  case (Cons c cs)
  show ?case
  proof (cases "strings_HasPrefix (c # cs) ''!(''")
    case True
    then show ?thesis by (cases cs) auto
  next
    case False
    with Cons.prems have c: "strings_Contains cs ''!(''" by auto
    from strings_Index_found [OF c] Cons.IH [OF c] False show ?thesis
      by (simp add: Let_def nat_add_distrib)
  qed
qed

function evaluateBrackets :: "string \<Rightarrow> string" where
  "evaluateBrackets expr =
     (if strings_Contains expr ''!(''
      then strings_Replace expr
             (''!('' @ resolveBracketExpression expr @ '')'')
             (evaluateBrackets (resolveBracketExpression expr))
      else strconv_FormatBool (\<not> fst (evaluateExp expr)))"
  by pat_completeness auto
termination
proof (relation "measure length")
  show "wf (measure length)" by simp
next
  fix expr :: string
  assume "strings_Contains expr ''!(''"
  then have "expr \<noteq> []" by (rule strings_Contains_nonempty)
  then show "(resolveBracketExpression expr, expr) \<in> measure length"
    by (simp add: resolveBracketExpression_shorter)
qed

declare evaluateBrackets.simps [simp del]

text \<open>
  The loop of \<open>handleNegation\<close> runs as long as \<open>!(\<close> occurs in the text. It need not end:
  the value \<open>None\<close> stands for a call that does not return.
\<close>

partial_function (option) handleNegation_loop :: "string \<Rightarrow> string option" where
  "handleNegation_loop expr =
     (if strings_Contains expr ''!(''
      then handleNegation_loop (evaluateBrackets expr)
      else Some expr)"

declare handleNegation_loop.simps [code]

definition handleNegation :: "string \<Rightarrow> string option" where
  "handleNegation expr =
     handleNegation_loop
       (strings_Replace (strings_Replace expr ''!true'' ''false'') ''!false'' ''true'')"

definition isTagPresent :: "(string \<rightharpoonup> bool) \<Rightarrow> string \<Rightarrow> bool" where
  "isTagPresent tagsMap tagName = (case tagsMap tagName of None \<Rightarrow> False | Some _ \<Rightarrow> True)"

definition isValidOperator :: "char \<Rightarrow> bool" where
  "isValidOperator r =
     (r = CHR ''&'' \<or> r = CHR ''|'' \<or> r = CHR ''('' \<or> r = CHR '')'' \<or> r = CHR ''!'')"

text \<open>
  The second component is the list of operands. The first is the list the callback
  collects, here with one entry for each operator byte of the expression; no caller in
  the file reads it.
\<close>

definition getOperatorsAndOperands :: "ScenarioFilterBasedOnTags \<Rightarrow> string list \<times> string list" where
  "getOperatorsAndOperands flt =
     (map (\<lambda>r. [r]) (filter isValidOperator (tagExpression flt)),
      strings_FieldsFunc (tagExpression flt) isValidOperator)"

text \<open>
  \<^verbatim>\<open>sort.Sort(ByLength(tags))\<close> orders the operands by descending length. The model is
  insertion sort, which keeps operands of equal length in their order of occurrence. It
  is what every release of the library runs on a list of at most six operands, and the
  model is exact there. \<^verbatim>\<open>sort.Sort\<close> is not a stable sort: on a longer list the library
  may leave operands of equal length in another order, which the model does not follow.
\<close>

fun insertByLength :: "string \<Rightarrow> string list \<Rightarrow> string list" where
  "insertByLength t [] = [t]"
| "insertByLength t (u # us) =
     (if length t > length u then t # u # us else u # insertByLength t us)"

definition sortByLength :: "string list \<Rightarrow> string list" where
  "sortByLength tags = foldl (\<lambda>sorted t. insertByLength t sorted) [] tags"

definition formatAndEvaluateExpression ::
  "ScenarioFilterBasedOnTags \<Rightarrow> (string \<rightharpoonup> bool) \<Rightarrow> ((string \<rightharpoonup> bool) \<Rightarrow> string \<Rightarrow> bool)
     \<Rightarrow> (bool \<times> error option) option" where
  "formatAndEvaluateExpression flt tagsMap isTagQualified =
     (let tags = sortByLength (snd (getOperatorsAndOperands flt));
          expToBeEvaluated =
            foldl (\<lambda>e tag. strings_Replace e (strings_TrimSpace tag)
                     (strconv_FormatBool (isTagQualified tagsMap (strings_TrimSpace tag))))
              (tagExpression flt) tags
      in map_option evaluateExp (handleNegation expToBeEvaluated))"

text \<open>The loop that fills \<open>tagsMap\<close>: every tag is entered without its spaces.\<close>

definition tagsMapOf :: "string list \<Rightarrow> (string \<rightharpoonup> bool)" where
  "tagsMapOf stags = foldl (\<lambda>m tag. m(strings_Replace tag '' '' '''' \<mapsto> True)) Map.empty stags"

text \<open>
  \<open>filterTags\<close> normalises the expression the filter holds, evaluates it and drops the
  error. The result is the value and the filter as the call leaves it.
\<close>

definition filterTags ::
  "ScenarioFilterBasedOnTags \<Rightarrow> string list \<Rightarrow> (bool \<times> ScenarioFilterBasedOnTags) option" where
  "filterTags flt stags =
     (let tagsMap = tagsMapOf stags;
          flt' = replaceSpecialChar flt
      in map_option (\<lambda>(value, _). (value, flt'))
           (formatAndEvaluateExpression flt' tagsMap isTagPresent))"

text \<open>
  \<open>validateTagExpression\<close>: \<open>Some (Some e)\<close> when the expression is rejected (the process
  ends with a fatal log entry), \<open>Some None\<close> when it is accepted.
\<close>

definition validateTagExpression :: "string \<Rightarrow> error option option" where
  "validateTagExpression tagExp =
     (let flt = replaceSpecialChar \<lparr>specTags = [], tagExpression = tagExp\<rparr>
      in map_option snd (formatAndEvaluateExpression flt Map.empty (\<lambda>a b. True)))"

subsection \<open>Specifications and their items\<close>

text \<open>
  Modelled from the spec: the types \<open>Scenario\<close>, \<open>Item\<close> and \<open>Specification\<close> and the method
  \<open>Specification.Filter\<close> belong to package \<open>gauge\<close>, which is not among the sources. A
  scenario has a heading and tags (\<open>None\<close> for the nil pointer, \<open>Some values\<close> for a tag
  list), a specification has a heading, optional tags and its items in order; an item
  is a scenario or something else. The scenarios of a specification are the scenarios
  among its items.
\<close>

record Scenario =
  ScenarioHeading :: string
  ScenarioTags :: "string list option"

datatype Item = ScenarioItem Scenario | NonScenarioItem string

record Specification =
  SpecHeading :: string
  SpecTags :: "string list option"
  Items :: "Item list"

fun scenariosOf :: "Item list \<Rightarrow> Scenario list" where
  "scenariosOf [] = []"
| "scenariosOf (ScenarioItem sc # items) = sc # scenariosOf items"
| "scenariosOf (NonScenarioItem other # items) = scenariosOf items"

definition Scenarios :: "Specification \<Rightarrow> Scenario list" where
  "Scenarios spec = scenariosOf (Items spec)"

text \<open>
  The filter that retains the scenario at one index. Its predicate answers \<open>False\<close> for
  the scenario at \<open>indexToNotFilter\<close> and \<open>True\<close> for every other scenario: \<open>True\<close> asks
  for the item to be removed. The counter is a Go \<open>int\<close>.
\<close>

record scenarioIndexFilterToRetain =
  indexToNotFilter :: "64 word"
  currentScenarioIndex :: "64 word"

definition newScenarioIndexFilterToRetain :: "64 word \<Rightarrow> scenarioIndexFilterToRetain" where
  "newScenarioIndexFilterToRetain index = \<lparr>indexToNotFilter = index, currentScenarioIndex = 0\<rparr>"

definition scenarioIndexFilterToRetain_Filter ::
  "scenarioIndexFilterToRetain \<Rightarrow> Item \<Rightarrow> bool \<times> scenarioIndexFilterToRetain" where
  "scenarioIndexFilterToRetain_Filter flt item =
     (case item of
        ScenarioItem sc \<Rightarrow>
          (if currentScenarioIndex flt \<noteq> indexToNotFilter flt
           then (True, flt\<lparr>currentScenarioIndex := currentScenarioIndex flt + 1\<rparr>)
           else (False, flt\<lparr>currentScenarioIndex := currentScenarioIndex flt + 1\<rparr>))
      | NonScenarioItem other \<Rightarrow> (False, flt))"

text \<open>
  The predicate of the tag filter: \<open>True\<close> asks for the item to be removed. Each call on a
  scenario normalises the expression the filter holds, so the filter is returned as well.
\<close>

definition Filter :: "ScenarioFilterBasedOnTags \<Rightarrow> Item \<Rightarrow> (bool \<times> ScenarioFilterBasedOnTags) option" where
  "Filter flt item =
     (case item of
        ScenarioItem sc \<Rightarrow>
          (case ScenarioTags sc of
             None \<Rightarrow> map_option (\<lambda>(value, flt'). (\<not> value, flt')) (filterTags flt (specTags flt))
           | Some values \<Rightarrow>
               map_option (\<lambda>(value, flt'). (\<not> value, flt'))
                 (filterTags flt (values @ specTags flt)))
      | NonScenarioItem other \<Rightarrow> Some (False, flt))"

text \<open>
  Modelled from the spec: \<open>Specification.Filter\<close> applies the predicate to every item of
  the specification in order and removes, in place, the items for which it answers
  \<open>True\<close>.
\<close>

fun filterItems ::
  "ScenarioFilterBasedOnTags \<Rightarrow> Item list \<Rightarrow> (Item list \<times> ScenarioFilterBasedOnTags) option" where
  "filterItems flt [] = Some ([], flt)"
| "filterItems flt (item # items) =
     (case Filter flt item of
        None \<Rightarrow> None
      | Some (remove, flt') \<Rightarrow>
          (case filterItems flt' items of
             None \<Rightarrow> None
           | Some (kept, flt'') \<Rightarrow> Some (if remove then kept else item # kept, flt'')))"

definition Specification_Filter ::
  "Specification \<Rightarrow> ScenarioFilterBasedOnTags \<Rightarrow> Specification option" where
  "Specification_Filter spec flt =
     map_option (\<lambda>(kept, _). spec\<lparr>Items := kept\<rparr>) (filterItems flt (Items spec))"

fun filterSpecsByTags :: "Specification list \<Rightarrow> string \<Rightarrow> Specification list option" where
  "filterSpecsByTags [] tagExp = Some []"
| "filterSpecsByTags (spec # specs) tagExp =
     (let tagValues = (case SpecTags spec of None \<Rightarrow> [] | Some values \<Rightarrow> values)
      in case Specification_Filter spec (newScenarioFilterBasedOnTags tagValues tagExp) of
           None \<Rightarrow> None
         | Some spec' \<Rightarrow>
             (case filterSpecsByTags specs tagExp of
                None \<Rightarrow> None
              | Some filteredSpecs \<Rightarrow>
                  Some (if length (Scenarios spec') \<noteq> 0 then spec' # filteredSpecs
                        else filteredSpecs)))"

section \<open>Properties of the tag filter\<close>

lemmas eval_defs = evaluateExp_def strings_Replace_def types_Eval_def emitLiteral_def isDigit_def
  operatorToken_def literalValue_def digitVal_def exact_Uint64Val_def

lemmas format_defs = formatAndEvaluateExpression_def getOperatorsAndOperands_def
  strings_FieldsFunc_def isValidOperator_def sortByLength_def strings_TrimSpace_def isSpace_def
  strconv_FormatBool_def handleNegation_def handleNegation_loop.simps evaluateBrackets.simps
  resolveBracketExpression_def

subsection \<open>The empty expression\<close>

lemma evaluateExp_empty: "evaluateExp '''' = (False, Some InvalidExpression)"
  by (simp add: eval_defs)

lemma formatAndEvaluateExpression_empty:
  "formatAndEvaluateExpression \<lparr>specTags = st, tagExpression = ''''\<rparr> m q
     = Some (False, Some InvalidExpression)"
  by (simp add: formatAndEvaluateExpression_def getOperatorsAndOperands_def
      strings_FieldsFunc_def sortByLength_def handleNegation_def handleNegation_loop.simps
      strings_Replace_def evaluateExp_empty)

lemma replaceSpecialChar_empty:
  "replaceSpecialChar \<lparr>specTags = st, tagExpression = ''''\<rparr>
     = \<lparr>specTags = st, tagExpression = ''''\<rparr>"
  by (simp add: replaceSpecialChar_def strings_Replace_def)

lemma filterTags_empty:
  "filterTags \<lparr>specTags = st, tagExpression = ''''\<rparr> stags
     = Some (False, \<lparr>specTags = st, tagExpression = ''''\<rparr>)"
  by (simp add: filterTags_def Let_def replaceSpecialChar_empty formatAndEvaluateExpression_empty)

text \<open>With the empty expression the predicate rejects the scenarios and nothing else.\<close>

fun isScenario :: "Item \<Rightarrow> bool" where
  "isScenario (ScenarioItem sc) = True"
| "isScenario (NonScenarioItem other) = False"

lemma Filter_empty:
  "Filter \<lparr>specTags = st, tagExpression = ''''\<rparr> item
     = Some (isScenario item, \<lparr>specTags = st, tagExpression = ''''\<rparr>)"
  by (cases item) (auto simp: Filter_def filterTags_empty split: option.splits)

lemma filterItems_empty:
  "filterItems \<lparr>specTags = st, tagExpression = ''''\<rparr> items
     = Some (filter (\<lambda>item. \<not> isScenario item) items,
             \<lparr>specTags = st, tagExpression = ''''\<rparr>)"
  by (induction items) (simp_all add: Filter_empty)

lemma scenariosOf_no_scenario: "scenariosOf (filter (\<lambda>item. \<not> isScenario item) items) = []"
  by (induction items rule: scenariosOf.induct) simp_all

lemma filterSpecsByTags_empty: "filterSpecsByTags specList '''' = Some []"
  by (induction specList)
     (simp_all add: Let_def Specification_Filter_def newScenarioFilterBasedOnTags_def
        filterItems_empty Scenarios_def scenariosOf_no_scenario)

text \<open>
  Claim C1, amended. The empty text is not an expression: \<open>evaluateExp\<close> returns the
  value \<open>False\<close> together with the error, and \<open>validateTagExpression\<close> rejects the empty
  expression. As \<open>filterTags\<close> drops the error and keeps the value, it answers \<open>False\<close>
  for every tag list, and the filter's predicate asks for every scenario to be removed,
  whatever its tags and the tags of its specification; an item that is not a scenario
  is kept. So \<open>filterSpecsByTags\<close> with the empty expression returns no specification.
\<close>

theorem empty_expression_is_invalid:
  "evaluateExp '''' = (False, Some InvalidExpression)
   \<and> validateTagExpression '''' = Some (Some InvalidExpression)
   \<and> filterTags (newScenarioFilterBasedOnTags st '''') stags
       = Some (False, newScenarioFilterBasedOnTags st '''')
   \<and> Filter (newScenarioFilterBasedOnTags st '''') (ScenarioItem sc)
       = Some (True, newScenarioFilterBasedOnTags st '''')
   \<and> Filter (newScenarioFilterBasedOnTags st '''') (NonScenarioItem other)
       = Some (False, newScenarioFilterBasedOnTags st '''')
   \<and> filterSpecsByTags specList '''' = Some []"
proof -
  have v: "validateTagExpression '''' = Some (Some InvalidExpression)"
    by (simp add: validateTagExpression_def Let_def replaceSpecialChar_empty
        formatAndEvaluateExpression_empty)
  show ?thesis
    using v
    by (simp add: evaluateExp_empty filterTags_empty newScenarioFilterBasedOnTags_def
        Filter_empty filterSpecsByTags_empty)
qed

text \<open>
  The claim as the spec states it fails: with the empty expression the evaluation against
  the tag \<open>smoke\<close> gives \<open>False\<close>, the predicate asks for the scenario \<open>login\<close> to be
  removed, and of a specification with that scenario nothing is returned.
\<close>

theorem empty_expression_not_true:
  "map_option fst (filterTags (newScenarioFilterBasedOnTags [] '''') [''smoke'']) = Some False
   \<and> map_option fst (Filter (newScenarioFilterBasedOnTags [] '''')
         (ScenarioItem \<lparr>ScenarioHeading = ''login'', ScenarioTags = Some [''smoke'']\<rparr>))
       = Some True
   \<and> filterSpecsByTags
         [\<lparr>SpecHeading = ''accounts'', SpecTags = None,
           Items = [ScenarioItem \<lparr>ScenarioHeading = ''login'',
                                  ScenarioTags = Some [''smoke'']\<rparr>]\<rparr>]
         '''' = Some []"
  by (simp add: newScenarioFilterBasedOnTags_def Filter_empty filterTags_empty
      filterSpecsByTags_empty)

subsection \<open>Normalisation\<close>

lemma replaceAll_unchanged: "\<not> strings_Contains s old \<Longrightarrow> replaceAll old new s = s"
  by (induction old new s rule: replaceAll.induct) auto

lemma strings_Contains_char: "strings_Contains s [c] \<Longrightarrow> c \<in> set s"
  by (induction s) auto

lemma replaceAll_chars: "set (replaceAll old new s) \<subseteq> set s \<union> set new"
proof (induction old new s rule: replaceAll.induct)
  case (1 old new)
  show ?case by simp
next
  case (2 old new c cs)
  have "set (drop (length old - 1) cs) \<subseteq> set cs" by (rule set_drop_subset)
  with 2 show ?case by (auto split: if_splits)
qed

lemma replaceAll_removes_char: "c \<notin> set new \<Longrightarrow> c \<notin> set (replaceAll [c] new s)"
  by (induction s) auto

lemma strings_Replace_unchanged:
  "old \<noteq> [] \<Longrightarrow> \<not> strings_Contains s old \<Longrightarrow> strings_Replace s old new = s"
  by (simp add: strings_Replace_def replaceAll_unchanged)

text \<open>A normal form has neither spaces nor commas.\<close>

lemma normal_form_chars:
  "CHR '' '' \<notin> set (tagExpression (replaceSpecialChar flt))"
  "CHR '','' \<notin> set (tagExpression (replaceSpecialChar flt))"
proof -
  let ?e1 = "replaceAll '' '' '''' (tagExpression flt)"
  let ?e2 = "replaceAll '','' ''&'' ?e1"
  let ?e3 = "replaceAll ''&&'' ''&'' ?e2"
  let ?e4 = "replaceAll ''||'' ''|'' ?e3"
  have n: "tagExpression (replaceSpecialChar flt) = ?e4"
    by (simp add: replaceSpecialChar_def strings_Replace_def)
  have s1: "CHR '' '' \<notin> set ?e1" by (rule replaceAll_removes_char) simp
  have c2: "CHR '','' \<notin> set ?e2" by (rule replaceAll_removes_char) simp
  have s2: "CHR '' '' \<notin> set ?e2" using s1 replaceAll_chars [of "'',''" "''&''" ?e1] by auto
  have s3: "CHR '' '' \<notin> set ?e3" using s2 replaceAll_chars [of "''&&''" "''&''" ?e2] by auto
  have c3: "CHR '','' \<notin> set ?e3" using c2 replaceAll_chars [of "''&&''" "''&''" ?e2] by auto
  have s4: "CHR '' '' \<notin> set ?e4" using s3 replaceAll_chars [of "''||''" "''|''" ?e3] by auto
  have c4: "CHR '','' \<notin> set ?e4" using c3 replaceAll_chars [of "''||''" "''|''" ?e3] by auto
  show "CHR '' '' \<notin> set (tagExpression (replaceSpecialChar flt))" using s4 n by simp
  show "CHR '','' \<notin> set (tagExpression (replaceSpecialChar flt))" using c4 n by simp
qed

text \<open>
  A normal form that holds neither \<open>&&\<close> nor \<open>||\<close> is not changed by another
  normalisation: each of the four replacements finds nothing to replace.
\<close>

lemma replaceSpecialChar_fixed_when_collapsed:
  assumes "\<not> strings_Contains (tagExpression (replaceSpecialChar flt)) ''&&''"
    and "\<not> strings_Contains (tagExpression (replaceSpecialChar flt)) ''||''"
  shows "replaceSpecialChar (replaceSpecialChar flt) = replaceSpecialChar flt"
proof -
  let ?n = "tagExpression (replaceSpecialChar flt)"
  have a: "strings_Replace ?n '' '' '''' = ?n"
    using normal_form_chars(1) [of flt] strings_Contains_char
    by (intro strings_Replace_unchanged) auto
  have b: "strings_Replace ?n '','' ''&'' = ?n"
    using normal_form_chars(2) [of flt] strings_Contains_char
    by (intro strings_Replace_unchanged) auto
  have c: "strings_Replace ?n ''&&'' ''&'' = ?n"
    using assms(1) by (intro strings_Replace_unchanged) auto
  have d: "strings_Replace ?n ''||'' ''|'' = ?n"
    using assms(2) by (intro strings_Replace_unchanged) auto
  have "replaceSpecialChar (replaceSpecialChar flt)
          = (replaceSpecialChar flt)\<lparr>tagExpression := ?n\<rparr>"
    unfolding replaceSpecialChar_def [of "replaceSpecialChar flt"] by (simp only: a b c d)
  then show ?thesis by simp
qed

text \<open>
  The replacement of a doubled sign by the sign, in one pass from the left: the first
  byte of the text stays, a text without three of the signs in a row is left without
  two in a row, and pairs and triples of another sign are not brought together.
\<close>

lemma replaceAll_double_head:
  "strings_HasPrefix (replaceAll [a, a] [a] s) [c] = strings_HasPrefix s [c]"
  by (cases s) auto

lemma replaceAll_double_collapses:
  "\<not> strings_Contains s [a, a, a] \<Longrightarrow> \<not> strings_Contains (replaceAll [a, a] [a] s) [a, a]"
proof (induction s rule: length_induct)
  case (1 s)
  show ?case
  proof (cases s)
    case Nil
    then show ?thesis by simp
  next
    case (Cons c cs)
    show ?thesis
    proof (cases "strings_HasPrefix (c # cs) [a, a]")
      case True
      then obtain rest where cs: "cs = a # rest" and c: "c = a" by (cases cs) auto
      from 1(2) have nr: "\<not> strings_Contains rest [a, a, a]"
        and np: "\<not> strings_HasPrefix rest [a]"
        by (auto simp: Cons cs c)
      have "length rest < length s" by (simp add: Cons cs)
      with 1(1) nr have "\<not> strings_Contains (replaceAll [a, a] [a] rest) [a, a]" by blast
      with np show ?thesis
        by (simp add: Cons cs c replaceAll_double_head)
    next
      case False
      from 1(2) have "\<not> strings_Contains cs [a, a, a]" by (simp add: Cons)
      moreover have "length cs < length s" by (simp add: Cons)
      ultimately have "\<not> strings_Contains (replaceAll [a, a] [a] cs) [a, a]"
        using 1(1) by blast
      moreover from False have "replaceAll [a, a] [a] (c # cs) = c # replaceAll [a, a] [a] cs"
        by (simp del: strings_HasPrefix.simps)
      ultimately show ?thesis
        using False by (auto simp: Cons replaceAll_double_head)
    qed
  qed
qed

lemma replaceAll_double_keeps_pairs_apart:
  "a \<noteq> b \<Longrightarrow> \<not> strings_Contains s [b, b] \<Longrightarrow>
     \<not> strings_Contains (replaceAll [a, a] [a] s) [b, b]"
proof (induction s rule: length_induct)
  case (1 s)
  show ?case
  proof (cases s)
    case Nil
    then show ?thesis by simp
  next
    case (Cons c cs)
    show ?thesis
    proof (cases "strings_HasPrefix (c # cs) [a, a]")
      case True
      then obtain rest where cs: "cs = a # rest" and c: "c = a" by (cases cs) auto
      from 1(3) have nr: "\<not> strings_Contains rest [b, b]" by (simp add: Cons cs c)
      have "length rest < length s" by (simp add: Cons cs)
      with 1(1) 1(2) nr have "\<not> strings_Contains (replaceAll [a, a] [a] rest) [b, b]"
        by blast
      with 1(2) show ?thesis
        by (simp add: Cons cs c)
    next
      case False
      from 1(3) have "\<not> strings_Contains cs [b, b]"
        and "\<not> strings_HasPrefix (c # cs) [b, b]"
        by (simp_all add: Cons)
      moreover have "length cs < length s" by (simp add: Cons)
      ultimately have "\<not> strings_Contains (replaceAll [a, a] [a] cs) [b, b]"
        and "\<not> strings_HasPrefix (c # cs) [b, b]" using 1(1) 1(2) by blast+
      moreover from False have "replaceAll [a, a] [a] (c # cs) = c # replaceAll [a, a] [a] cs"
        by (simp del: strings_HasPrefix.simps)
      ultimately show ?thesis
        by (auto simp: Cons replaceAll_double_head)
    qed
  qed
qed

lemma replaceAll_double_keeps_triples_apart:
  "a \<noteq> b \<Longrightarrow> \<not> strings_Contains s [b, b, b] \<Longrightarrow>
     \<not> strings_Contains (replaceAll [a, a] [a] s) [b, b, b]"
proof (induction s rule: length_induct)
  case (1 s)
  show ?case
  proof (cases s)
    case Nil
    then show ?thesis by simp
  next
    case (Cons c cs)
    show ?thesis
    proof (cases "strings_HasPrefix (c # cs) [a, a]")
      case True
      then obtain rest where cs: "cs = a # rest" and c: "c = a" by (cases cs) auto
      from 1(3) have nr: "\<not> strings_Contains rest [b, b, b]" by (simp add: Cons cs c)
      have "length rest < length s" by (simp add: Cons cs)
      with 1(1) 1(2) nr have "\<not> strings_Contains (replaceAll [a, a] [a] rest) [b, b, b]"
        by blast
      with 1(2) show ?thesis
        by (simp add: Cons cs c)
    next
      case False
      from 1(3) have nc: "\<not> strings_Contains cs [b, b, b]"
        and np: "\<not> strings_HasPrefix (c # cs) [b, b, b]"
        by (simp_all add: Cons)
      have "length cs < length s" by (simp add: Cons)
      with nc have r: "\<not> strings_Contains (replaceAll [a, a] [a] cs) [b, b, b]"
        using 1(1) 1(2) by blast
      have h: "strings_HasPrefix (replaceAll [a, a] [a] cs) [b, b] = strings_HasPrefix cs [b, b]"
        using 1(2) by (cases cs) (auto simp: replaceAll_double_head)
      from False have "replaceAll [a, a] [a] (c # cs) = c # replaceAll [a, a] [a] cs"
        by (simp del: strings_HasPrefix.simps)
      with r np h show ?thesis
        by (auto simp: Cons)
    qed
  qed
qed

text \<open>
  The expression after the first two replacements, which remove the spaces and turn
  the commas into \<open>&\<close>.
\<close>

definition withoutSpacesAndCommas :: "string \<Rightarrow> string" where
  "withoutSpacesAndCommas e = strings_Replace (strings_Replace e '' '' '''') '','' ''&''"

lemma normal_form_collapsed:
  assumes "\<not> strings_Contains (withoutSpacesAndCommas (tagExpression flt)) ''&&&''"
    and "\<not> strings_Contains (withoutSpacesAndCommas (tagExpression flt)) ''|||''"
  shows "\<not> strings_Contains (tagExpression (replaceSpecialChar flt)) ''&&''"
    and "\<not> strings_Contains (tagExpression (replaceSpecialChar flt)) ''||''"
proof -
  let ?e2 = "withoutSpacesAndCommas (tagExpression flt)"
  let ?e3 = "replaceAll ''&&'' ''&'' ?e2"
  let ?e4 = "replaceAll ''||'' ''|'' ?e3"
  have n: "tagExpression (replaceSpecialChar flt) = ?e4"
    by (simp add: replaceSpecialChar_def strings_Replace_def withoutSpacesAndCommas_def)
  have a3: "\<not> strings_Contains ?e3 ''&&''"
    using assms(1) by (rule replaceAll_double_collapses)
  have o3: "\<not> strings_Contains ?e3 ''|||''"
    by (rule replaceAll_double_keeps_triples_apart [OF _ assms(2)]) simp
  have o4: "\<not> strings_Contains ?e4 ''||''"
    using o3 by (rule replaceAll_double_collapses)
  have a4: "\<not> strings_Contains ?e4 ''&&''"
    by (rule replaceAll_double_keeps_pairs_apart [OF _ a3]) simp
  show "\<not> strings_Contains (tagExpression (replaceSpecialChar flt)) ''&&''"
    using a4 n by simp
  show "\<not> strings_Contains (tagExpression (replaceSpecialChar flt)) ''||''"
    using o4 n by simp
qed

text \<open>
  Claim C2, amended. Each of the four replacements is a single pass from the left, so a
  run of three or more conjunction or disjunction signs is shortened but not collapsed.
  Normalisation is idempotent on every expression that, once its spaces are removed and
  its commas are turned into \<open>&\<close>, has neither three \<open>&\<close> nor three \<open>|\<close> in a row: its normal
  form holds neither \<open>&&\<close> nor \<open>||\<close>, and normalising it once more changes nothing.
\<close>

theorem replaceSpecialChar_idempotent_without_triples:
  assumes "\<not> strings_Contains (withoutSpacesAndCommas (tagExpression flt)) ''&&&''"
    and "\<not> strings_Contains (withoutSpacesAndCommas (tagExpression flt)) ''|||''"
  shows "replaceSpecialChar (replaceSpecialChar flt) = replaceSpecialChar flt"
proof -
  from assms have "\<not> strings_Contains (tagExpression (replaceSpecialChar flt)) ''&&''"
    and "\<not> strings_Contains (tagExpression (replaceSpecialChar flt)) ''||''"
    by (rule normal_form_collapsed)+
  then show ?thesis by (rule replaceSpecialChar_fixed_when_collapsed)
qed

text \<open>
  The theorem at the expression \<open>a && b, c || !d\<close>, whose normal form is \<open>a&b&c|!d\<close>.
\<close>

theorem replaceSpecialChar_idempotent_example:
  "\<not> strings_Contains (withoutSpacesAndCommas
        (tagExpression \<lparr>specTags = [], tagExpression = ''a && b, c || !d''\<rparr>)) ''&&&''
   \<and> \<not> strings_Contains (withoutSpacesAndCommas
        (tagExpression \<lparr>specTags = [], tagExpression = ''a && b, c || !d''\<rparr>)) ''|||''
   \<and> replaceSpecialChar (replaceSpecialChar \<lparr>specTags = [], tagExpression = ''a && b, c || !d''\<rparr>)
       = replaceSpecialChar \<lparr>specTags = [], tagExpression = ''a && b, c || !d''\<rparr>
   \<and> tagExpression (replaceSpecialChar \<lparr>specTags = [], tagExpression = ''a && b, c || !d''\<rparr>)
       = ''a&b&c|!d''"
proof -
  have 1: "\<not> strings_Contains (withoutSpacesAndCommas
             (tagExpression \<lparr>specTags = [], tagExpression = ''a && b, c || !d''\<rparr>)) ''&&&''"
    by (simp add: withoutSpacesAndCommas_def strings_Replace_def)
  have 2: "\<not> strings_Contains (withoutSpacesAndCommas
             (tagExpression \<lparr>specTags = [], tagExpression = ''a && b, c || !d''\<rparr>)) ''|||''"
    by (simp add: withoutSpacesAndCommas_def strings_Replace_def)
  have n: "tagExpression (replaceSpecialChar \<lparr>specTags = [], tagExpression = ''a && b, c || !d''\<rparr>)
             = ''a&b&c|!d''"
    by (simp add: replaceSpecialChar_def strings_Replace_def)
  from replaceSpecialChar_idempotent_without_triples [OF 1 2] 1 2 n show ?thesis by blast
qed

text \<open>
  The claim as the spec states it fails at \<open>a&&&b\<close>: the first pass gives \<open>a&&b\<close>, the
  second \<open>a&b\<close>.
\<close>

theorem replaceSpecialChar_not_idempotent:
  "tagExpression (replaceSpecialChar \<lparr>specTags = [], tagExpression = ''a&&&b''\<rparr>) = ''a&&b''
   \<and> tagExpression (replaceSpecialChar (replaceSpecialChar
         \<lparr>specTags = [], tagExpression = ''a&&&b''\<rparr>)) = ''a&b''
   \<and> replaceSpecialChar (replaceSpecialChar \<lparr>specTags = [], tagExpression = ''a&&&b''\<rparr>)
       \<noteq> replaceSpecialChar \<lparr>specTags = [], tagExpression = ''a&&&b''\<rparr>"
  by (simp add: replaceSpecialChar_def strings_Replace_def)

subsection \<open>De Morgan\<close>

text \<open>The tags present in the tag map are the given tags without their spaces.\<close>

lemma tagsMapOf_fold:
  "isTagPresent (foldl (\<lambda>m tag. m(strings_Replace tag '' '' '''' \<mapsto> True)) m0 stags) t
     = (isTagPresent m0 t \<or> t \<in> (\<lambda>tag. strings_Replace tag '' '' '''') ` set stags)"
  by (induction stags arbitrary: m0) (auto simp: isTagPresent_def)

lemma tagsMapOf_present:
  "isTagPresent (tagsMapOf stags) t = (t \<in> (\<lambda>tag. strings_Replace tag '' '' '''') ` set stags)"
  by (simp add: tagsMapOf_def tagsMapOf_fold) (simp add: isTagPresent_def)

lemma negated_group:
  "formatAndEvaluateExpression \<lparr>specTags = st, tagExpression = ''!(a&b)''\<rparr> m q
     = Some (\<not> (q m ''a'' \<and> q m ''b''), None)"
  by (cases "q m ''a''"; cases "q m ''b''") (simp_all add: format_defs eval_defs)

lemma negated_literals:
  "formatAndEvaluateExpression \<lparr>specTags = st, tagExpression = ''!a|!b''\<rparr> m q
     = Some (\<not> (q m ''a'' \<and> q m ''b''), None)"
  by (cases "q m ''a''"; cases "q m ''b''") (simp_all add: format_defs eval_defs)

text \<open>
  The law at the operands \<open>a\<close> and \<open>b\<close>, in this order. For every list of tags and
  whatever the tags of the specification, the evaluation of \<open>!(a & b)\<close>, which goes
  through the scan for the matching parenthesis and the splice, and the evaluation of
  \<open>!a | !b\<close>, which goes through the replacement of \<open>!true\<close> and \<open>!false\<close>, both
  return, and with the same value: \<open>True\<close> unless both tags are in the tag map. Here the
  operand \<open>a\<close> is replaced first, and \<open>b\<close> occurs in neither \<open>true\<close> nor \<open>false\<close>.
\<close>

lemma de_morgan_for_operands_a_b:
  "map_option fst (filterTags (newScenarioFilterBasedOnTags st ''!(a & b)'') stags)
     = map_option fst (filterTags (newScenarioFilterBasedOnTags st ''!a | !b'') stags)
   \<and> map_option fst (filterTags (newScenarioFilterBasedOnTags st ''!(a & b)'') stags)
     = Some (\<not> (isTagPresent (tagsMapOf stags) ''a'' \<and> isTagPresent (tagsMapOf stags) ''b''))"
proof -
  have l: "replaceSpecialChar \<lparr>specTags = st, tagExpression = ''!(a & b)''\<rparr>
             = \<lparr>specTags = st, tagExpression = ''!(a&b)''\<rparr>"
    by (simp add: replaceSpecialChar_def strings_Replace_def)
  have r: "replaceSpecialChar \<lparr>specTags = st, tagExpression = ''!a | !b''\<rparr>
             = \<lparr>specTags = st, tagExpression = ''!a|!b''\<rparr>"
    by (simp add: replaceSpecialChar_def strings_Replace_def)
  show ?thesis
    by (simp add: filterTags_def newScenarioFilterBasedOnTags_def Let_def l r
        negated_group negated_literals)
qed

text \<open>
  The substitution replaces an operand wherever it occurs in the text, also inside the
  words \<open>true\<close> and \<open>false\<close> that have taken the place of earlier operands. With no tag
  present, the operands of \<open>!b|!a\<close> are replaced in the order \<open>b\<close>, \<open>a\<close>: the text
  becomes \<open>!false|!a\<close>, and then the \<open>a\<close> of \<open>false\<close> is replaced as well.
\<close>

lemma substitution_rewrites_inserted_literal:
  "sortByLength (snd (getOperatorsAndOperands \<lparr>specTags = [], tagExpression = ''!b|!a''\<rparr>))
     = [''b'', ''a'']
   \<and> foldl (\<lambda>e tag. strings_Replace e (strings_TrimSpace tag)
              (strconv_FormatBool (isTagPresent Map.empty (strings_TrimSpace tag))))
        ''!b|!a'' [''b'', ''a'']
     = ''!ffalselse|!false''
   \<and> handleNegation ''!ffalselse|!false'' = Some ''!ffalselse|true''
   \<and> evaluateExp ''!ffalselse|true'' = (False, Some InvalidExpression)"
  by code_simp

text \<open>
  Claim C4, at inputs on which the code departs from it. For a scenario with no tag, the
  group \<open>!(b & a)\<close> evaluates to \<open>True\<close> and \<open>!b | !a\<close> to \<open>False\<close>, where both negations
  are true; with the operands in the other order, \<open>!a | !b\<close> evaluates to \<open>True\<close>. For a
  scenario with the tags \<open>a\<close> and \<open>e\<close>, the group \<open>!(a & e)\<close> evaluates to \<open>True\<close>, where the
  conjunction is true, and \<open>!a | !e\<close> to \<open>False\<close>. In each case the substitution has
  rewritten a word it inserted; the text is then not an expression, which the literal
  path reports as \<open>False\<close> and the group path, dropping the error, negates to \<open>True\<close>.
\<close>

theorem de_morgan_fails_on_other_operands:
  "map_option fst (filterTags (newScenarioFilterBasedOnTags [] ''!(b & a)'') []) = Some True
   \<and> map_option fst (filterTags (newScenarioFilterBasedOnTags [] ''!b | !a'') []) = Some False
   \<and> map_option fst (filterTags (newScenarioFilterBasedOnTags [] ''!a | !b'') []) = Some True
   \<and> map_option fst (filterTags (newScenarioFilterBasedOnTags [] ''!(a & e)'') [''a'', ''e''])
       = Some True
   \<and> map_option fst (filterTags (newScenarioFilterBasedOnTags [] ''!a | !e'') [''a'', ''e''])
       = Some False"
  by code_simp

subsection \<open>The scenarios of the spec\<close>

text \<open>
  The spec's scenarios of the tag filter, evaluated by a fresh filter: a conjunction
  with a negation, the comma as conjunction, a negated group, and the tag \<open>long\<close> next to
  the tag \<open>longer\<close>.
\<close>

lemma spec_scenarios_of_the_tag_filter:
  "map_option fst (filterTags (newScenarioFilterBasedOnTags [] ''smoke & !wip'') [''smoke''])
     = Some True"
  "map_option fst (filterTags (newScenarioFilterBasedOnTags [] ''smoke & !wip'')
     [''smoke'', ''wip'']) = Some False"
  "map_option fst (filterTags (newScenarioFilterBasedOnTags [] ''a, b'') [''a'', ''b''])
     = Some True"
  "map_option fst (filterTags (newScenarioFilterBasedOnTags [] ''a, b'') [''a'']) = Some False"
  "map_option fst (filterTags (newScenarioFilterBasedOnTags [] ''!(a | b)'') [''c''])
     = Some True"
  "map_option fst (filterTags (newScenarioFilterBasedOnTags [] ''!(a | b)'') [''a''])
     = Some False"
  "map_option fst (filterTags (newScenarioFilterBasedOnTags [] ''long & longer'') [''longer''])
     = Some False"
  "map_option fst (filterTags (newScenarioFilterBasedOnTags [] ''longer'') [''longer''])
     = Some True"
  by code_simp+

subsection \<open>Filtering specifications\<close>

text \<open>
  The words of the spec, put into definitions. The effective tags of a scenario are its
  own tags and the tags of its specification; \<open>evaluate\<close> is the evaluation of an
  expression by a fresh filter (\<open>None\<close> when it does not return); an item is retained
  when it is not a scenario or when its evaluation is true; the claimed result keeps the
  retained items of every specification and drops the specifications left without
  scenarios.
\<close>

definition effectiveTags :: "Specification \<Rightarrow> Scenario \<Rightarrow> string list" where
  "effectiveTags spec sc =
     (case ScenarioTags sc of None \<Rightarrow> [] | Some values \<Rightarrow> values)
     @ (case SpecTags spec of None \<Rightarrow> [] | Some values \<Rightarrow> values)"

definition evaluate :: "string \<Rightarrow> string list \<Rightarrow> bool option" where
  "evaluate expr stags = map_option fst (filterTags (newScenarioFilterBasedOnTags [] expr) stags)"

fun retainedItem :: "string \<Rightarrow> Specification \<Rightarrow> Item \<Rightarrow> bool" where
  "retainedItem expr spec (ScenarioItem sc) = (evaluate expr (effectiveTags spec sc) = Some True)"
| "retainedItem expr spec (NonScenarioItem other) = True"

definition claimedFilterSpecsByTags :: "Specification list \<Rightarrow> string \<Rightarrow> Specification list" where
  "claimedFilterSpecsByTags specList expr =
     filter (\<lambda>spec. Scenarios spec \<noteq> [])
       (map (\<lambda>spec. spec\<lparr>Items := filter (retainedItem expr spec) (Items spec)\<rparr>) specList)"

text \<open>
  Claim C3, at an input on which the code departs from it. The expression \<open>!(a&&&b)\<close>
  is accepted by \<open>validateTagExpression\<close>, and its evaluation against the tags \<open>a\<close>, \<open>b\<close>
  by a fresh filter gives \<open>True\<close>. The specification \<open>checkout\<close> has two scenarios, both
  with the tags \<open>a\<close> and \<open>b\<close>. \<open>filterSpecsByTags\<close> keeps the first and removes the second:
  \<open>filterTags\<close> normalises the expression the filter holds at every call, so the first
  scenario is judged against \<open>!(a&&b)\<close> and the second against \<open>!(a&b)\<close>. The claimed
  result keeps both scenarios.
\<close>

theorem filterSpecsByTags_judges_equal_scenarios_differently:
  "validateTagExpression ''!(a&&&b)'' = Some None
   \<and> map_option fst (filterTags (newScenarioFilterBasedOnTags [] ''!(a&&&b)'') [''a'', ''b''])
       = Some True
   \<and> filterSpecsByTags
       [\<lparr>SpecHeading = ''checkout'', SpecTags = None,
         Items = [ScenarioItem \<lparr>ScenarioHeading = ''pay by card'',
                                 ScenarioTags = Some [''a'', ''b'']\<rparr>,
                  ScenarioItem \<lparr>ScenarioHeading = ''pay by voucher'',
                                 ScenarioTags = Some [''a'', ''b'']\<rparr>]\<rparr>]
       ''!(a&&&b)''
     = Some [\<lparr>SpecHeading = ''checkout'', SpecTags = None,
         Items = [ScenarioItem \<lparr>ScenarioHeading = ''pay by card'',
                                 ScenarioTags = Some [''a'', ''b'']\<rparr>]\<rparr>]
   \<and> claimedFilterSpecsByTags
       [\<lparr>SpecHeading = ''checkout'', SpecTags = None,
         Items = [ScenarioItem \<lparr>ScenarioHeading = ''pay by card'',
                                 ScenarioTags = Some [''a'', ''b'']\<rparr>,
                  ScenarioItem \<lparr>ScenarioHeading = ''pay by voucher'',
                                 ScenarioTags = Some [''a'', ''b'']\<rparr>]\<rparr>]
       ''!(a&&&b)''
     = [\<lparr>SpecHeading = ''checkout'', SpecTags = None,
         Items = [ScenarioItem \<lparr>ScenarioHeading = ''pay by card'',
                                 ScenarioTags = Some [''a'', ''b'']\<rparr>,
                  ScenarioItem \<lparr>ScenarioHeading = ''pay by voucher'',
                                 ScenarioTags = Some [''a'', ''b'']\<rparr>]\<rparr>]"
  by code_simp

text \<open>What holds of the claim.\<close>


text \<open>The evaluation reads nothing of a filter but its expression.\<close>

lemma formatAndEvaluateExpression_cong:
  "tagExpression flt = tagExpression flt' \<Longrightarrow>
     formatAndEvaluateExpression flt m q = formatAndEvaluateExpression flt' m q"
  by (simp add: formatAndEvaluateExpression_def getOperatorsAndOperands_def)

lemma tagExpression_replaceSpecialChar_cong:
  "tagExpression flt = tagExpression flt' \<Longrightarrow>
     tagExpression (replaceSpecialChar flt) = tagExpression (replaceSpecialChar flt')"
  by (simp add: replaceSpecialChar_def)

lemma specTags_replaceSpecialChar: "specTags (replaceSpecialChar flt) = specTags flt"
  by (simp add: replaceSpecialChar_def)

lemma evaluate_filterTags:
  assumes "tagExpression (replaceSpecialChar flt)
             = tagExpression (replaceSpecialChar (newScenarioFilterBasedOnTags [] expr))"
  shows "filterTags flt stags
           = map_option (\<lambda>v. (v, replaceSpecialChar flt)) (evaluate expr stags)"
proof -
  have "formatAndEvaluateExpression (replaceSpecialChar flt) m q
          = formatAndEvaluateExpression
              (replaceSpecialChar (newScenarioFilterBasedOnTags [] expr)) m q"
    for m q
    using assms by (rule formatAndEvaluateExpression_cong)
  then show ?thesis
    by (simp add: evaluate_def filterTags_def Let_def option.map_comp comp_def split_def)
qed

text \<open>
  The items of one specification, for a filter that holds an expression with the normal
  form of \<open>expr\<close>, when that normal form is not changed by another normalisation and the
  evaluations return.
\<close>

lemma filterItems_on_collapsed:
  assumes n: "tagExpression (replaceSpecialChar flt)
                = tagExpression (replaceSpecialChar (newScenarioFilterBasedOnTags [] expr))"
    and idem: "replaceSpecialChar (replaceSpecialChar (newScenarioFilterBasedOnTags [] expr))
                = replaceSpecialChar (newScenarioFilterBasedOnTags [] expr)"
    and st: "specTags flt = (case SpecTags spec of None \<Rightarrow> [] | Some values \<Rightarrow> values)"
    and ret: "\<forall>sc \<in> set (scenariosOf items). evaluate expr (effectiveTags spec sc) \<noteq> None"
  shows "map_option fst (filterItems flt items) = Some (filter (retainedItem expr spec) items)"
  using n st ret
proof (induction items arbitrary: flt)
  case Nil
  show ?case by simp
next
  case (Cons item items)
  show ?case
  proof (cases item)
    case (NonScenarioItem other)
    from Cons.prems
    have t: "\<forall>sc \<in> set (scenariosOf items). evaluate expr (effectiveTags spec sc) \<noteq> None"
      by (simp add: NonScenarioItem)
    from Cons.IH [OF Cons.prems(1) Cons.prems(2) t]
    obtain kept flt'' where k: "filterItems flt items = Some (kept, flt'')"
      and e: "kept = filter (retainedItem expr spec) items"
      by (cases "filterItems flt items") auto
    show ?thesis
      by (simp add: NonScenarioItem Filter_def k e)
  next
    case (ScenarioItem sc)
    from Cons.prems
    have t: "\<forall>sc \<in> set (scenariosOf items). evaluate expr (effectiveTags spec sc) \<noteq> None"
      and v: "evaluate expr (effectiveTags spec sc) \<noteq> None"
      by (simp_all add: ScenarioItem)
    from v obtain b where ev: "evaluate expr (effectiveTags spec sc) = Some b" by auto
    let ?flt' = "replaceSpecialChar flt"
    have tags: "(case ScenarioTags sc of
                   None \<Rightarrow> specTags flt | Some values \<Rightarrow> values @ specTags flt)
                  = effectiveTags spec sc"
      by (simp add: effectiveTags_def Cons.prems(2) split: option.splits)
    have f: "Filter flt (ScenarioItem sc) = Some (\<not> b, ?flt')"
      using evaluate_filterTags [OF Cons.prems(1)] ev tags
      by (cases "ScenarioTags sc") (simp_all add: Filter_def)
    have n': "tagExpression (replaceSpecialChar ?flt')
                = tagExpression (replaceSpecialChar (newScenarioFilterBasedOnTags [] expr))"
      using tagExpression_replaceSpecialChar_cong [OF Cons.prems(1)] idem by simp
    have st': "specTags ?flt' = (case SpecTags spec of None \<Rightarrow> [] | Some values \<Rightarrow> values)"
      using Cons.prems(2) by (simp add: specTags_replaceSpecialChar)
    from Cons.IH [OF n' st' t]
    obtain kept flt'' where k: "filterItems ?flt' items = Some (kept, flt'')"
      and e: "kept = filter (retainedItem expr spec) items"
      by (cases "filterItems ?flt' items") auto
    show ?thesis
      by (simp add: ScenarioItem f k e ev)
  qed
qed

text \<open>
  On an expression whose normal form is not changed by another normalisation, and with
  scenarios on which the evaluation returns, \<open>filterSpecsByTags\<close> returns the claimed
  result: a scenario is retained exactly when the evaluation against its effective tags
  is true, the other items are retained, and a specification is in the result exactly
  when a scenario of it is retained.
\<close>

lemma filterSpecsByTags_on_collapsed:
  assumes idem: "replaceSpecialChar (replaceSpecialChar (newScenarioFilterBasedOnTags [] expr))
                = replaceSpecialChar (newScenarioFilterBasedOnTags [] expr)"
    and ret: "\<forall>spec \<in> set specList. \<forall>sc \<in> set (Scenarios spec).
                evaluate expr (effectiveTags spec sc) \<noteq> None"
  shows "filterSpecsByTags specList expr = Some (claimedFilterSpecsByTags specList expr)"
  using ret
proof (induction specList)
  case Nil
  show ?case by (simp add: claimedFilterSpecsByTags_def)
next
  case (Cons spec specList)
  let ?tagValues = "case SpecTags spec of None \<Rightarrow> [] | Some values \<Rightarrow> values"
  let ?flt = "newScenarioFilterBasedOnTags ?tagValues expr"
  have n: "tagExpression (replaceSpecialChar ?flt)
             = tagExpression (replaceSpecialChar (newScenarioFilterBasedOnTags [] expr))"
    by (rule tagExpression_replaceSpecialChar_cong) (simp add: newScenarioFilterBasedOnTags_def)
  have st: "specTags ?flt = ?tagValues"
    by (simp add: newScenarioFilterBasedOnTags_def)
  from Cons.prems
  have t: "\<forall>sc \<in> set (scenariosOf (Items spec)). evaluate expr (effectiveTags spec sc) \<noteq> None"
    by (simp add: Scenarios_def)
  from filterItems_on_collapsed [OF n idem st t]
  obtain flt'' where k: "filterItems ?flt (Items spec)
      = Some (filter (retainedItem expr spec) (Items spec), flt'')"
    by (cases "filterItems ?flt (Items spec)") auto
  from Cons.prems
  have "\<forall>spec \<in> set specList. \<forall>sc \<in> set (Scenarios spec).
          evaluate expr (effectiveTags spec sc) \<noteq> None"
    by simp
  from Cons.IH [OF this] show ?case
    by (simp add: Let_def Specification_Filter_def k claimedFilterSpecsByTags_def Scenarios_def)
qed

text \<open>
  The lemma at the expression \<open>smoke && !wip\<close> and two specifications: of the first,
  tagged \<open>smoke\<close>, the scenario without tags is retained and the scenario tagged \<open>wip\<close>
  is removed; the second, whose one scenario is tagged \<open>w ip\<close>, is dropped.
\<close>

definition exampleSpecs :: "Specification list" where
  "exampleSpecs =
     [\<lparr>SpecHeading = ''checkout'', SpecTags = Some [''smoke''],
       Items = [NonScenarioItem ''a comment'',
                ScenarioItem \<lparr>ScenarioHeading = ''pay by card'', ScenarioTags = None\<rparr>,
                ScenarioItem \<lparr>ScenarioHeading = ''pay by voucher'',
                               ScenarioTags = Some [''wip'']\<rparr>]\<rparr>,
      \<lparr>SpecHeading = ''returns'', SpecTags = None,
       Items = [ScenarioItem \<lparr>ScenarioHeading = ''send back'', ScenarioTags = Some [''w ip'']\<rparr>]\<rparr>]"

lemma filterSpecsByTags_on_collapsed_example:
  "filterSpecsByTags exampleSpecs ''smoke && !wip''
     = Some (claimedFilterSpecsByTags exampleSpecs ''smoke && !wip'')
   \<and> claimedFilterSpecsByTags exampleSpecs ''smoke && !wip''
     = [\<lparr>SpecHeading = ''checkout'', SpecTags = Some [''smoke''],
         Items = [NonScenarioItem ''a comment'',
                  ScenarioItem \<lparr>ScenarioHeading = ''pay by card'', ScenarioTags = None\<rparr>]\<rparr>]"
proof -
  have idem: "replaceSpecialChar (replaceSpecialChar
                (newScenarioFilterBasedOnTags [] ''smoke && !wip''))
              = replaceSpecialChar (newScenarioFilterBasedOnTags [] ''smoke && !wip'')"
    by (simp add: replaceSpecialChar_def newScenarioFilterBasedOnTags_def strings_Replace_def)
  have e1: "evaluate ''smoke && !wip'' [''smoke''] = Some True" by code_simp
  have e2: "evaluate ''smoke && !wip'' [''wip'', ''smoke''] = Some False" by code_simp
  have e3: "evaluate ''smoke && !wip'' [''w ip''] = Some False" by code_simp
  have ret: "\<forall>spec \<in> set exampleSpecs. \<forall>sc \<in> set (Scenarios spec).
               evaluate ''smoke && !wip'' (effectiveTags spec sc) \<noteq> None"
    by (auto simp: exampleSpecs_def Scenarios_def effectiveTags_def e1 e2 e3)
  have c: "claimedFilterSpecsByTags exampleSpecs ''smoke && !wip''
     = [\<lparr>SpecHeading = ''checkout'', SpecTags = Some [''smoke''],
         Items = [NonScenarioItem ''a comment'',
                  ScenarioItem \<lparr>ScenarioHeading = ''pay by card'', ScenarioTags = None\<rparr>]\<rparr>]"
    by (simp add: claimedFilterSpecsByTags_def exampleSpecs_def Scenarios_def effectiveTags_def
        e1 e2 e3)
  from filterSpecsByTags_on_collapsed [OF idem ret] c show ?thesis by simp
qed

lemma scenariosOf_retained:
  "scenariosOf (filter (retainedItem expr spec) items)
     = filter (\<lambda>sc. evaluate expr (effectiveTags spec sc) = Some True) (scenariosOf items)"
  by (induction items rule: scenariosOf.induct) auto

text \<open>Whenever \<open>filterSpecsByTags\<close> returns, every specification it returns has a scenario.\<close>

lemma filterSpecsByTags_nonempty:
  "filterSpecsByTags specList expr = Some filtered \<Longrightarrow> spec \<in> set filtered \<Longrightarrow>
     Scenarios spec \<noteq> []"
proof (induction specList arbitrary: filtered)
  case Nil
  then show ?case by simp
next
  case (Cons s specList)
  then show ?case
    by (auto simp: Let_def split: option.splits if_splits)
qed

subsection \<open>An unclosed group\<close>

text \<open>
  The loop of \<open>handleNegation\<close> does not end on a text with an unclosed \<open>!(\<close>: the text to
  replace, which ends with \<open>)\<close>, does not occur, and \<open>evaluateBrackets\<close> returns the text
  as it was. So \<open>validateTagExpression\<close> does not return on the expression \<open>!(a\<close>.
\<close>

lemma evaluateBrackets_unclosed: "evaluateBrackets ''!(true'' = ''!(true''"
  by (simp add: evaluateBrackets.simps resolveBracketExpression_def strconv_FormatBool_def
      eval_defs)

lemma handleNegation_loop_unclosed: "handleNegation_loop ''!(true'' = None"
proof -
  have "x \<noteq> ''!(true''" if "handleNegation_loop x = Some y" for x y
  proof (rule handleNegation_loop.raw_induct [where P = "\<lambda>x y. x \<noteq> ''!(true''", OF _ that])
    fix loop :: "string \<Rightarrow> string option" and x y
    assume IH: "\<And>x y. loop x = Some y \<Longrightarrow> x \<noteq> ''!(true''"
      and step: "(if strings_Contains x ''!('' then loop (evaluateBrackets x) else Some x) = Some y"
    show "x \<noteq> ''!(true''"
    proof
      assume x: "x = ''!(true''"
      with step have "loop ''!(true'' = Some y"
        by (simp add: evaluateBrackets_unclosed)
      from IH [OF this] show False by simp
    qed
  qed
  then show ?thesis by (cases "handleNegation_loop ''!(true''") auto
qed

lemma validateTagExpression_unclosed: "validateTagExpression ''!(a'' = None"
  by (simp add: validateTagExpression_def replaceSpecialChar_def Let_def
      formatAndEvaluateExpression_def getOperatorsAndOperands_def strings_FieldsFunc_def
      isValidOperator_def sortByLength_def strings_TrimSpace_def isSpace_def
      strconv_FormatBool_def handleNegation_def strings_Replace_def
      handleNegation_loop_unclosed)

section \<open>The steps cache of the spec info gatherer (package infoGatherer)\<close>

text \<open>
  A step value as the gatherer uses it: the field \<open>StepValue\<close> is the canonical step text,
  the key of the cache. The cache maps keys to step values; the caches of specifications
  and concepts and the mutex play no part in what follows and are left out.
\<close>

record StepValue =
  Args :: "string list"
  StepValue :: string
  ParameterizedStepValue :: string

record SpecInfoGatherer =
  stepsCache :: "string \<rightharpoonup> StepValue"

text \<open>The loop of \<open>addToStepsCache\<close>: a step is entered only when its key is not in the map.\<close>

fun addSteps :: "(string \<rightharpoonup> StepValue) \<Rightarrow> StepValue list \<Rightarrow> (string \<rightharpoonup> StepValue)" where
  "addSteps cache [] = cache"
| "addSteps cache (step # steps) =
     addSteps (case cache (StepValue step) of
                 None \<Rightarrow> cache(StepValue step \<mapsto> step)
               | Some _ \<Rightarrow> cache) steps"

definition addToStepsCache :: "SpecInfoGatherer \<Rightarrow> StepValue list \<Rightarrow> SpecInfoGatherer" where
  "addToStepsCache s allSteps = s\<lparr>stepsCache := addSteps (stepsCache s) allSteps\<rparr>"

text \<open>
  \<open>initStepsCache\<close> empties the cache and enters the steps of its three sources. The
  sources are read from the specs cache, the concepts cache and the runner, by code that
  is not modelled: the three lists are parameters, named as the local variables are.
\<close>

definition initStepsCache ::
  "SpecInfoGatherer \<Rightarrow> StepValue list \<Rightarrow> StepValue list \<Rightarrow> StepValue list \<Rightarrow> SpecInfoGatherer" where
  "initStepsCache s stepsFromSpecs stepsFromConcepts implementedSteps =
     (let s' = s\<lparr>stepsCache := Map.empty\<rparr>;
          allSteps = implementedSteps @ stepsFromConcepts;
          allSteps = allSteps @ stepsFromSpecs
      in addToStepsCache s' allSteps)"

lemma addSteps_lookup:
  "addSteps cache steps k =
     (case cache k of
        Some v \<Rightarrow> Some v
      | None \<Rightarrow> find (\<lambda>step. StepValue step = k) steps)"
proof (induction steps arbitrary: cache)
  case Nil
  show ?case by (simp split: option.splits)
next
  case (Cons step steps)
  show ?case
    by (cases "cache (StepValue step)"; cases "cache k") (auto simp: Cons.IH)
qed

text \<open>
  Claim C8. \<open>addToStepsCache\<close> never overwrites: a key that has an entry keeps it, whatever
  steps are added. After \<open>initStepsCache\<close> the entry of a key is the first step with that
  key in the list made of the implemented steps, then the steps from concepts, then the
  steps from specs (and the key has no entry when no step has it); so the step of an
  earlier source is the one retained. A map holds at most one entry per key.
\<close>

theorem stepsCache_first_writer_wins:
  "(stepsCache s k = Some v \<longrightarrow> stepsCache (addToStepsCache s allSteps) k = Some v)
   \<and> stepsCache (initStepsCache s stepsFromSpecs stepsFromConcepts implementedSteps) k
       = find (\<lambda>step. StepValue step = k) (implementedSteps @ stepsFromConcepts @ stepsFromSpecs)"
  by (simp add: addToStepsCache_def initStepsCache_def Let_def addSteps_lookup)

text \<open>
  The theorem at a cache that holds \<open>say hello\<close>, to which a second step of that key is
  added, and at an initialisation of that gatherer where the three sources all have a
  step of the key \<open>say hello\<close>: the implemented one is retained.
\<close>

theorem stepsCache_first_writer_wins_example:
  "stepsCache \<lparr>stepsCache = [''say hello'' \<mapsto>
       \<lparr>Args = [], StepValue = ''say hello'', ParameterizedStepValue = ''say hello''\<rparr>]\<rparr>
     ''say hello''
     = Some \<lparr>Args = [], StepValue = ''say hello'', ParameterizedStepValue = ''say hello''\<rparr>
   \<and> stepsCache (addToStepsCache
       \<lparr>stepsCache = [''say hello'' \<mapsto>
          \<lparr>Args = [], StepValue = ''say hello'', ParameterizedStepValue = ''say hello''\<rparr>]\<rparr>
       [\<lparr>Args = [''x''], StepValue = ''say hello'', ParameterizedStepValue = ''say hello <x>''\<rparr>])
     ''say hello''
     = Some \<lparr>Args = [], StepValue = ''say hello'', ParameterizedStepValue = ''say hello''\<rparr>
   \<and> stepsCache (initStepsCache
       \<lparr>stepsCache = [''say hello'' \<mapsto>
          \<lparr>Args = [], StepValue = ''say hello'', ParameterizedStepValue = ''say hello''\<rparr>]\<rparr>
       [\<lparr>Args = [''s''], StepValue = ''say hello'', ParameterizedStepValue = ''from spec''\<rparr>]
       [\<lparr>Args = [''c''], StepValue = ''say hello'', ParameterizedStepValue = ''from concept''\<rparr>]
       [\<lparr>Args = [''i''], StepValue = ''say hello'', ParameterizedStepValue = ''implemented''\<rparr>])
     ''say hello''
     = Some \<lparr>Args = [''i''], StepValue = ''say hello'', ParameterizedStepValue = ''implemented''\<rparr>"
  using stepsCache_first_writer_wins
    [of "\<lparr>stepsCache = [''say hello'' \<mapsto>
          \<lparr>Args = [], StepValue = ''say hello'', ParameterizedStepValue = ''say hello''\<rparr>]\<rparr>"
        "''say hello''"
        "\<lparr>Args = [], StepValue = ''say hello'', ParameterizedStepValue = ''say hello''\<rparr>"
        "[\<lparr>Args = [''x''], StepValue = ''say hello'', ParameterizedStepValue = ''say hello <x>''\<rparr>]"
        "[\<lparr>Args = [''s''], StepValue = ''say hello'', ParameterizedStepValue = ''from spec''\<rparr>]"
        "[\<lparr>Args = [''c''], StepValue = ''say hello'', ParameterizedStepValue = ''from concept''\<rparr>]"
        "[\<lparr>Args = [''i''], StepValue = ''say hello'', ParameterizedStepValue = ''implemented''\<rparr>]"]
  by simp

section \<open>The coloured console reporter (package reporter)\<close>

text \<open>
  The colours of \<^verbatim>\<open>go-colortext\<close> that the reporter uses; \<open>NoColor\<close> is \<^verbatim>\<open>ct.None\<close>.
\<close>

datatype Color = NoColor | Cyan | Yellow | Red | Green | Magenta

text \<open>
  The terminal is seen through the calls made on it, in order: the colour calls of
  \<^verbatim>\<open>go-colortext\<close> and the calls on the \<^verbatim>\<open>goterminal\<close> writer.
\<close>

datatype TerminalCall = Foreground Color | Fprint string | Print | ResetColor | Reset | Clear

datatype LogCall = LogInfo string | LogDebug string | LogError string

text \<open>
  The struct \<open>coloredConsole\<close>. The field \<open>writer\<close> holds the terminal calls made so far; the
  field \<open>gaugeLog\<close>, which the struct does not have, holds the entries given to the global
  logger. \<open>indentation\<close> is a Go \<open>int\<close>.
\<close>

record coloredConsole =
  writer :: "TerminalCall list"
  headingBuffer :: string
  pluginMessagesBuffer :: string
  indentation :: "64 word"
  gaugeLog :: "LogCall list"

text \<open>
  The constants, the variable \<open>Verbose\<close> and the helper functions that the file uses and
  other files of the package declare are parameters of the model; \<open>Sprintf\<close> stands for
  \<^verbatim>\<open>fmt.Sprintf\<close>.
\<close>

record reporterPackage =
  Verbose :: bool
  scenarioIndentation :: "64 word"
  stepIndentation :: "64 word"
  errorIndentation :: "64 word"
  newline :: string
  formatSpec :: "string \<Rightarrow> string"
  formatScenario :: "string \<Rightarrow> string"
  indent :: "string \<Rightarrow> 64 word \<Rightarrow> string"
  getSuccessSymbol :: string
  getFailureSymbol :: string
  Sprintf :: "string \<Rightarrow> string list \<Rightarrow> string"

definition displayMessage :: "coloredConsole \<Rightarrow> string \<Rightarrow> Color \<Rightarrow> coloredConsole" where
  "displayMessage c msg color =
     c\<lparr>writer := writer c @ [Foreground color, Fprint msg, Print, ResetColor]\<rparr>"

definition writer_Reset :: "coloredConsole \<Rightarrow> coloredConsole" where
  "writer_Reset c = c\<lparr>writer := writer c @ [Reset]\<rparr>"

definition writer_Clear :: "coloredConsole \<Rightarrow> coloredConsole" where
  "writer_Clear c = c\<lparr>writer := writer c @ [Clear]\<rparr>"

definition logger :: "coloredConsole \<Rightarrow> LogCall \<Rightarrow> coloredConsole" where
  "logger c entry = c\<lparr>gaugeLog := gaugeLog c @ [entry]\<rparr>"

definition resetBuffers :: "coloredConsole \<Rightarrow> coloredConsole" where
  "resetBuffers c = c\<lparr>headingBuffer := [], pluginMessagesBuffer := []\<rparr>"

definition SpecStart :: "reporterPackage \<Rightarrow> coloredConsole \<Rightarrow> string \<Rightarrow> coloredConsole" where
  "SpecStart r c heading =
     (let msg = formatSpec r heading;
          c = logger c (LogInfo msg);
          c = displayMessage c (msg @ newline r) Cyan
      in writer_Reset c)"

definition SpecEnd :: "reporterPackage \<Rightarrow> coloredConsole \<Rightarrow> coloredConsole" where
  "SpecEnd r c = writer_Reset (displayMessage c (newline r) NoColor)"

definition ScenarioStart :: "reporterPackage \<Rightarrow> coloredConsole \<Rightarrow> string \<Rightarrow> coloredConsole" where
  "ScenarioStart r c scenarioHeading =
     (let c = c\<lparr>indentation := indentation c + scenarioIndentation r\<rparr>;
          msg = formatScenario r scenarioHeading;
          c = logger c (LogInfo msg);
          indentedText = indent r (msg @ [CHR 0x09]) (indentation c);
          c = displayMessage c indentedText Yellow;
          c = (if Verbose r then displayMessage c (newline r) NoColor else c)
      in writer_Reset c)"

definition ScenarioEnd :: "reporterPackage \<Rightarrow> coloredConsole \<Rightarrow> bool \<Rightarrow> coloredConsole" where
  "ScenarioEnd r c failed =
     (let c = (if \<not> Verbose r then displayMessage c (newline r) NoColor else c);
          c = writer_Reset c
      in c\<lparr>indentation := indentation c - scenarioIndentation r\<rparr>)"

definition StepStart :: "reporterPackage \<Rightarrow> coloredConsole \<Rightarrow> string \<Rightarrow> coloredConsole" where
  "StepStart r c stepText =
     (let c = resetBuffers c;
          c = writer_Reset c;
          c = c\<lparr>indentation := indentation c + stepIndentation r\<rparr>;
          c = logger c (LogDebug stepText)
      in if Verbose r
         then (let c = c\<lparr>headingBuffer := headingBuffer c
                          @ indent r (strings_TrimSpace stepText) (indentation c)\<rparr>
               in displayMessage c (headingBuffer c @ newline r) NoColor)
         else c)"

definition StepEnd :: "reporterPackage \<Rightarrow> coloredConsole \<Rightarrow> bool \<Rightarrow> coloredConsole" where
  "StepEnd r c failed =
     (let c = (if Verbose r
               then (let c = writer_Clear c;
                         c = (if failed
                              then displayMessage c
                                     (headingBuffer c @ [CHR 0x09] @ '' ...[FAIL]'' @ [CHR 0x0A]) Red
                              else displayMessage c
                                     (headingBuffer c @ [CHR 0x09] @ '' ...[PASS]'' @ [CHR 0x0A]) Green)
                     in displayMessage c (pluginMessagesBuffer c) NoColor)
               else (if failed
                     then displayMessage c (getFailureSymbol r @ newline r) Red
                     else displayMessage c (getSuccessSymbol r) Green));
          c = writer_Reset c;
          c = resetBuffers c
      in c\<lparr>indentation := indentation c - stepIndentation r\<rparr>)"

definition ConceptStart :: "reporterPackage \<Rightarrow> coloredConsole \<Rightarrow> string \<Rightarrow> coloredConsole" where
  "ConceptStart r c conceptHeading =
     (let c = c\<lparr>indentation := indentation c + stepIndentation r\<rparr>;
          c = logger c (LogDebug conceptHeading)
      in if Verbose r
         then writer_Reset (displayMessage c
                (indent r (strings_TrimSpace conceptHeading) (indentation c) @ newline r) Magenta)
         else c)"

definition ConceptEnd :: "reporterPackage \<Rightarrow> coloredConsole \<Rightarrow> bool \<Rightarrow> coloredConsole" where
  "ConceptEnd r c failed = c\<lparr>indentation := indentation c - stepIndentation r\<rparr>"

definition DataTable :: "reporterPackage \<Rightarrow> coloredConsole \<Rightarrow> string \<Rightarrow> coloredConsole" where
  "DataTable r c table =
     (let c = logger c (LogDebug table);
          c = displayMessage c (newline r @ table) Yellow
      in writer_Reset c)"

definition Error :: "reporterPackage \<Rightarrow> coloredConsole \<Rightarrow> string \<Rightarrow> string list \<Rightarrow> coloredConsole" where
  "Error r c text args =
     (let msg = Sprintf r text args;
          c = logger c (LogError msg);
          msg = indent r msg (indentation c + errorIndentation r) @ newline r
      in displayMessage c msg Red)"

text \<open>\<open>Write\<close> returns the number of bytes and no error; the model keeps the console.\<close>

definition Write :: "reporterPackage \<Rightarrow> coloredConsole \<Rightarrow> string \<Rightarrow> coloredConsole" where
  "Write r c b =
     (let text = b;
          c = c\<lparr>pluginMessagesBuffer := pluginMessagesBuffer c @ text\<rparr>
      in displayMessage c text NoColor)"

subsection \<open>Sequences of reporter calls\<close>

datatype ReporterCall =
    CallSpecStart string | CallSpecEnd
  | CallScenarioStart string | CallScenarioEnd bool
  | CallStepStart string | CallStepEnd bool
  | CallConceptStart string | CallConceptEnd bool
  | CallDataTable string | CallError string "string list" | CallWrite string

fun call :: "reporterPackage \<Rightarrow> coloredConsole \<Rightarrow> ReporterCall \<Rightarrow> coloredConsole" where
  "call r c (CallSpecStart heading) = SpecStart r c heading"
| "call r c CallSpecEnd = SpecEnd r c"
| "call r c (CallScenarioStart heading) = ScenarioStart r c heading"
| "call r c (CallScenarioEnd failed) = ScenarioEnd r c failed"
| "call r c (CallStepStart stepText) = StepStart r c stepText"
| "call r c (CallStepEnd failed) = StepEnd r c failed"
| "call r c (CallConceptStart heading) = ConceptStart r c heading"
| "call r c (CallConceptEnd failed) = ConceptEnd r c failed"
| "call r c (CallDataTable table) = DataTable r c table"
| "call r c (CallError text args) = Error r c text args"
| "call r c (CallWrite b) = Write r c b"

definition calls :: "reporterPackage \<Rightarrow> coloredConsole \<Rightarrow> ReporterCall list \<Rightarrow> coloredConsole" where
  "calls r c cs = foldl (call r) c cs"

text \<open>
  A sequence of calls is balanced when its Start and End calls nest: every End call
  closes the most recent Start call still open, which is of its kind, and no Start call
  is left open. \<open>opened\<close> is the stack of the Start calls still open.
\<close>

datatype Opened = OpenScenario | OpenStep | OpenConcept

fun balancedFrom :: "Opened list \<Rightarrow> ReporterCall list \<Rightarrow> bool" where
  "balancedFrom opened [] = (opened = [])"
| "balancedFrom opened (CallScenarioStart heading # cs) = balancedFrom (OpenScenario # opened) cs"
| "balancedFrom opened (CallStepStart stepText # cs) = balancedFrom (OpenStep # opened) cs"
| "balancedFrom opened (CallConceptStart heading # cs) = balancedFrom (OpenConcept # opened) cs"
| "balancedFrom opened (CallScenarioEnd failed # cs) =
     (case opened of OpenScenario # rest \<Rightarrow> balancedFrom rest cs | _ \<Rightarrow> False)"
| "balancedFrom opened (CallStepEnd failed # cs) =
     (case opened of OpenStep # rest \<Rightarrow> balancedFrom rest cs | _ \<Rightarrow> False)"
| "balancedFrom opened (CallConceptEnd failed # cs) =
     (case opened of OpenConcept # rest \<Rightarrow> balancedFrom rest cs | _ \<Rightarrow> False)"
| "balancedFrom opened (other # cs) = balancedFrom opened cs"

definition balanced :: "ReporterCall list \<Rightarrow> bool" where
  "balanced cs = balancedFrom [] cs"

text \<open>The indentation that the Start calls still open have added.\<close>

fun openedIndentation :: "reporterPackage \<Rightarrow> Opened list \<Rightarrow> 64 word" where
  "openedIndentation r [] = 0"
| "openedIndentation r (OpenScenario # rest) = scenarioIndentation r + openedIndentation r rest"
| "openedIndentation r (OpenStep # rest) = stepIndentation r + openedIndentation r rest"
| "openedIndentation r (OpenConcept # rest) = stepIndentation r + openedIndentation r rest"

subsection \<open>The indentation is balanced\<close>

lemmas reporter_defs = SpecStart_def SpecEnd_def ScenarioStart_def ScenarioEnd_def StepStart_def
  StepEnd_def ConceptStart_def ConceptEnd_def DataTable_def Error_def Write_def
  displayMessage_def writer_Reset_def writer_Clear_def logger_def resetBuffers_def

lemma indentation_methods:
  "indentation (SpecStart r c heading) = indentation c"
  "indentation (SpecEnd r c) = indentation c"
  "indentation (ScenarioStart r c scenarioHeading) = indentation c + scenarioIndentation r"
  "indentation (ScenarioEnd r c failed) = indentation c - scenarioIndentation r"
  "indentation (StepStart r c stepText) = indentation c + stepIndentation r"
  "indentation (StepEnd r c failed) = indentation c - stepIndentation r"
  "indentation (ConceptStart r c conceptHeading) = indentation c + stepIndentation r"
  "indentation (ConceptEnd r c failed) = indentation c - stepIndentation r"
  "indentation (DataTable r c table) = indentation c"
  "indentation (Error r c text args) = indentation c"
  "indentation (Write r c b) = indentation c"
  by (simp_all add: reporter_defs Let_def)

text \<open>
  While Start calls are open, the indentation exceeds its initial value by what they
  have added.
\<close>

lemma balancedFrom_indentation:
  "balancedFrom opened cs \<Longrightarrow>
     indentation (foldl (call r) c cs) + openedIndentation r opened = indentation c"
proof (induction cs arbitrary: opened c)
  case Nil
  then show ?case by simp
next
  case (Cons x cs)
  show ?case
  proof (cases x)
    case (CallScenarioStart heading)
    with Cons.prems have "balancedFrom (OpenScenario # opened) cs" by simp
    from Cons.IH [OF this, of "call r c x"] show ?thesis
      by (simp add: CallScenarioStart indentation_methods)
  next
    case (CallStepStart stepText)
    with Cons.prems have "balancedFrom (OpenStep # opened) cs" by simp
    from Cons.IH [OF this, of "call r c x"] show ?thesis
      by (simp add: CallStepStart indentation_methods)
  next
    case (CallConceptStart heading)
    with Cons.prems have "balancedFrom (OpenConcept # opened) cs" by simp
    from Cons.IH [OF this, of "call r c x"] show ?thesis
      by (simp add: CallConceptStart indentation_methods)
  next
    case (CallScenarioEnd failed)
    with Cons.prems obtain rest
      where o: "opened = OpenScenario # rest" and b: "balancedFrom rest cs"
      by (auto split: list.splits Opened.splits)
    from Cons.IH [OF b, of "call r c x"] show ?thesis
      by (simp add: o CallScenarioEnd indentation_methods algebra_simps)
  next
    case (CallStepEnd failed)
    with Cons.prems obtain rest
      where o: "opened = OpenStep # rest" and b: "balancedFrom rest cs"
      by (auto split: list.splits Opened.splits)
    from Cons.IH [OF b, of "call r c x"] show ?thesis
      by (simp add: o CallStepEnd indentation_methods algebra_simps)
  next
    case (CallConceptEnd failed)
    with Cons.prems obtain rest
      where o: "opened = OpenConcept # rest" and b: "balancedFrom rest cs"
      by (auto split: list.splits Opened.splits)
    from Cons.IH [OF b, of "call r c x"] show ?thesis
      by (simp add: o CallConceptEnd indentation_methods algebra_simps)
  next
    case (CallSpecStart heading)
    with Cons.prems have "balancedFrom opened cs" by simp
    from Cons.IH [OF this, of "call r c x"] show ?thesis
      by (simp add: CallSpecStart indentation_methods)
  next
    case CallSpecEnd
    with Cons.prems have "balancedFrom opened cs" by simp
    from Cons.IH [OF this, of "call r c x"] show ?thesis
      by (simp add: CallSpecEnd indentation_methods)
  next
    case (CallDataTable table)
    with Cons.prems have "balancedFrom opened cs" by simp
    from Cons.IH [OF this, of "call r c x"] show ?thesis
      by (simp add: CallDataTable indentation_methods)
  next
    case (CallError format args)
    with Cons.prems have "balancedFrom opened cs" by simp
    from Cons.IH [OF this, of "call r c x"] show ?thesis
      by (simp add: CallError indentation_methods)
  next
    case (CallWrite b)
    with Cons.prems have "balancedFrom opened cs" by simp
    from Cons.IH [OF this, of "call r c x"] show ?thesis
      by (simp add: CallWrite indentation_methods)
  qed
qed

text \<open>
  Claim C10. \<open>ScenarioStart\<close> adds \<open>scenarioIndentation\<close> to the field \<open>indentation\<close> and
  \<open>ScenarioEnd\<close> subtracts it; \<open>StepStart\<close> and \<open>ConceptStart\<close> add \<open>stepIndentation\<close>, and
  \<open>StepEnd\<close> and \<open>ConceptEnd\<close> subtract it. So an End call after its Start call restores
  the indentation, and every balanced sequence of calls leaves the indentation equal to
  its initial value; this holds for all values of the two constants, for both values of
  \<open>Verbose\<close>, and with the wrap-around of machine integers.
\<close>

theorem indentation_balanced:
  "indentation (ScenarioStart r c scenarioHeading) = indentation c + scenarioIndentation r
   \<and> indentation (ScenarioEnd r c failed) = indentation c - scenarioIndentation r
   \<and> indentation (StepStart r c stepText) = indentation c + stepIndentation r
   \<and> indentation (StepEnd r c failed) = indentation c - stepIndentation r
   \<and> indentation (ConceptStart r c conceptHeading) = indentation c + stepIndentation r
   \<and> indentation (ConceptEnd r c failed) = indentation c - stepIndentation r
   \<and> indentation (ScenarioEnd r (ScenarioStart r c scenarioHeading) failed) = indentation c
   \<and> indentation (StepEnd r (StepStart r c stepText) failed) = indentation c
   \<and> indentation (ConceptEnd r (ConceptStart r c conceptHeading) failed) = indentation c
   \<and> (balanced cs \<longrightarrow> indentation (calls r c cs) = indentation c)"
proof -
  have "balanced cs \<longrightarrow> indentation (calls r c cs) = indentation c"
    using balancedFrom_indentation [of "[]" cs r c] by (simp add: balanced_def calls_def)
  then show ?thesis
    by (simp add: indentation_methods)
qed

text \<open>
  The theorem for a scenario with a step and a concept of one step, reported to a
  console whose indentation is \<open>0\<close>, with the indentations \<open>2\<close> and \<open>4\<close>.
\<close>

definition exampleReporter :: reporterPackage where
  "exampleReporter =
     \<lparr>Verbose = True, scenarioIndentation = 2, stepIndentation = 4, errorIndentation = 2,
      newline = [CHR 0x0A], formatSpec = (\<lambda>h. ''# '' @ h), formatScenario = (\<lambda>h. ''## '' @ h),
      indent = (\<lambda>s n. replicate (unat n) CHR '' '' @ s),
      getSuccessSymbol = ''P'', getFailureSymbol = ''F'', Sprintf = (\<lambda>f args. f)\<rparr>"

definition exampleConsole :: coloredConsole where
  "exampleConsole =
     \<lparr>writer = [], headingBuffer = [], pluginMessagesBuffer = [], indentation = 0,
      gaugeLog = []\<rparr>"

definition exampleCalls :: "ReporterCall list" where
  "exampleCalls =
     [CallSpecStart ''checkout'', CallScenarioStart ''pay by card'',
      CallStepStart ''open the shop'', CallWrite ''opened'', CallStepEnd False,
      CallConceptStart ''pay'', CallStepStart ''enter the card'', CallStepEnd True,
      CallConceptEnd True, CallScenarioEnd True, CallSpecEnd]"

theorem indentation_balanced_example:
  "balanced exampleCalls
   \<and> indentation (calls exampleReporter exampleConsole exampleCalls) = indentation exampleConsole
   \<and> indentation (calls exampleReporter exampleConsole (take 7 exampleCalls)) = 10"
proof -
  have b: "balanced exampleCalls"
    by (simp add: balanced_def exampleCalls_def)
  have m: "indentation (calls exampleReporter exampleConsole (take 7 exampleCalls)) = 10"
    by (simp add: calls_def exampleCalls_def indentation_methods exampleReporter_def
        exampleConsole_def)
  from b m indentation_balanced [of exampleReporter exampleConsole _ _ _ _ exampleCalls]
  show ?thesis by blast
qed

section \<open>The API message handler (package api)\<close>

text \<open>
  The messages of the API. The message types and the message struct are generated from
  the protocol description, which is not among the sources; of a message the model keeps
  the type, the identifier (a pointer to an \<open>int64\<close>, \<open>None\<close> when nil) and the one
  request or response body it carries. Step values, specs and concept infos in their
  protocol form are carried as text. A Go \<open>error\<close> is carried as its message.
\<close>

datatype APIMessageType =
    GetProjectRootRequest | GetProjectRootResponse
  | GetInstallationRootRequest | GetInstallationRootResponse
  | GetAllStepsRequest | GetAllStepResponse
  | GetAllSpecsRequest | GetAllSpecsResponse
  | GetStepValueRequest | GetStepValueResponse
  | GetLanguagePluginLibPathRequest | GetLanguagePluginLibPathResponse
  | ErrorResponse
  | GetAllConceptsRequest | GetAllConceptsResponse
  | PerformRefactoringRequest | PerformRefactoringResponse
  | ExtractConceptRequest | ExtractConceptResponse
  | FormatSpecsRequest | FormatSpecsResponse
  | UnsupportedApiMessageResponse

type_synonym ProtoStepValue = string
type_synonym ProtoSpec = string
type_synonym ConceptInfo = string

datatype Body =
    NoBody
  | StepValueRequestBody string bool
  | LibPathRequestBody string
  | PerformRefactoringRequestBody string string
  | ExtractConceptRequestBody string "string list" string bool string
  | FormatSpecsRequestBody "string list"
  | ProjectRootResponseBody string
  | InstallationRootResponseBody string
  | AllStepsResponseBody "ProtoStepValue list"
  | AllSpecsResponseBody "ProtoSpec list"
  | StepValueResponseBody ProtoStepValue
  | LibPathResponseBody string
  | AllConceptsResponseBody "ConceptInfo list"
  | PerformRefactoringResponseBody bool "string list" "string list"
  | ExtractConceptResponseBody bool string "string list"
  | FormatSpecsResponseBody "string list" "string list"
  | ErrorResponseBody string
  | UnsupportedApiMessageResponseBody

record APIMessage =
  MessageType :: APIMessageType
  MessageId :: "64 word option"
  MessageBody :: Body

text \<open>
  What the handler calls outside its file is a parameter of the model: the decoder, the
  generator of unique identifiers (\<open>GetUniqueID\<close> is the identifier it returns to this
  call), the configuration, the gatherer's readers, the parser, the plugin registry,
  the refactoring, the concept extractor and the formatter. A function that can fail
  returns \<open>Inl\<close> with the error's message. \<open>ExtractConcept\<close> returns its error as an option,
  \<open>None\<close> for a nil error; \<open>FormatSpecFiles\<close> returns for every file its parse error, if
  any, and its warnings, \<open>None\<close> for a nil slice.
\<close>

record apiCollaborators =
  proto_Unmarshal :: "string \<Rightarrow> string + APIMessage"
  GetUniqueID :: "64 word"
  ProjectRoot :: string
  GetInstallationPrefix :: "string + string"
  GetAvailableSteps :: "StepValue list"
  ConvertToProtoStepValue :: "StepValue \<Rightarrow> ProtoStepValue"
  GetAvailableSpecs :: "Specification list"
  ConvertToProtoSpec :: "Specification \<Rightarrow> ProtoSpec"
  GetConceptInfos :: "ConceptInfo list"
  ExtractStepValueAndParams :: "string \<Rightarrow> bool \<Rightarrow> string + StepValue"
  GetInstallDir :: "string \<Rightarrow> string \<Rightarrow> string + string"
  GetRunnerInfoLib :: "string \<Rightarrow> string + string"
  path_Join :: "string \<Rightarrow> string \<Rightarrow> string"
  PerformRephraseRefactoring :: "string \<Rightarrow> string \<Rightarrow> bool \<times> string list \<times> string list"
  ExtractConcept ::
    "string \<Rightarrow> string list \<Rightarrow> string \<Rightarrow> bool \<Rightarrow> string \<Rightarrow> bool \<times> string option \<times> string list"
  FormatSpecFiles :: "string list \<Rightarrow> (string option \<times> string list option) list"

definition getErrorResponse :: "APIMessage \<Rightarrow> string \<Rightarrow> APIMessage" where
  "getErrorResponse message err =
     \<lparr>MessageType = ErrorResponse, MessageId = MessageId message,
      MessageBody = ErrorResponseBody err\<rparr>"

definition getErrorMessage :: "apiCollaborators \<Rightarrow> string \<Rightarrow> APIMessage" where
  "getErrorMessage env err =
     (let id = GetUniqueID env
      in \<lparr>MessageType = ErrorResponse, MessageId = Some id, MessageBody = ErrorResponseBody err\<rparr>)"

definition projectRootRequestResponse :: "apiCollaborators \<Rightarrow> APIMessage \<Rightarrow> APIMessage" where
  "projectRootRequestResponse env message =
     \<lparr>MessageType = GetProjectRootResponse, MessageId = MessageId message,
      MessageBody = ProjectRootResponseBody (ProjectRoot env)\<rparr>"

definition installationRootRequestResponse :: "apiCollaborators \<Rightarrow> APIMessage \<Rightarrow> APIMessage" where
  "installationRootRequestResponse env message =
     (let root = (case GetInstallationPrefix env of Inl err \<Rightarrow> [] | Inr root \<Rightarrow> root)
      in \<lparr>MessageType = GetInstallationRootResponse, MessageId = MessageId message,
          MessageBody = InstallationRootResponseBody root\<rparr>)"

definition getAllStepsRequestResponse :: "apiCollaborators \<Rightarrow> APIMessage \<Rightarrow> APIMessage" where
  "getAllStepsRequestResponse env message =
     (let stepValues = GetAvailableSteps env;
          stepValueResponses =
            foldl (\<lambda>rs stepValue. rs @ [ConvertToProtoStepValue env stepValue]) [] stepValues
      in \<lparr>MessageType = GetAllStepResponse, MessageId = MessageId message,
          MessageBody = AllStepsResponseBody stepValueResponses\<rparr>)"

definition createGetAllSpecsResponseMessageFor ::
  "apiCollaborators \<Rightarrow> Specification list \<Rightarrow> Body" where
  "createGetAllSpecsResponseMessageFor env specs =
     AllSpecsResponseBody (foldl (\<lambda>ps spec. ps @ [ConvertToProtoSpec env spec]) [] specs)"

definition getAllSpecsRequestResponse :: "apiCollaborators \<Rightarrow> APIMessage \<Rightarrow> APIMessage" where
  "getAllSpecsRequestResponse env message =
     \<lparr>MessageType = GetAllSpecsResponse, MessageId = MessageId message,
      MessageBody = createGetAllSpecsResponseMessageFor env (GetAvailableSpecs env)\<rparr>"

text \<open>The getters of a request body that the message does not carry return zero values.\<close>

definition getStepValueRequestResponse :: "apiCollaborators \<Rightarrow> APIMessage \<Rightarrow> APIMessage" where
  "getStepValueRequestResponse env message =
     (let (stepText, hasInlineTable) =
            (case MessageBody message of
               StepValueRequestBody t b \<Rightarrow> (t, b)
             | _ \<Rightarrow> ([], False))
      in case ExtractStepValueAndParams env stepText hasInlineTable of
           Inl err \<Rightarrow> getErrorResponse message err
         | Inr stepValue \<Rightarrow>
             \<lparr>MessageType = GetStepValueResponse, MessageId = MessageId message,
              MessageBody = StepValueResponseBody (ConvertToProtoStepValue env stepValue)\<rparr>)"

definition createGetAllConceptsResponseMessageFor :: "ConceptInfo list \<Rightarrow> Body" where
  "createGetAllConceptsResponseMessageFor conceptInfos = AllConceptsResponseBody conceptInfos"

definition getAllConceptsRequestResponse :: "apiCollaborators \<Rightarrow> APIMessage \<Rightarrow> APIMessage" where
  "getAllConceptsRequestResponse env message =
     \<lparr>MessageType = GetAllConceptsResponse, MessageId = MessageId message,
      MessageBody = createGetAllConceptsResponseMessageFor (GetConceptInfos env)\<rparr>"

definition getLanguagePluginLibPath :: "apiCollaborators \<Rightarrow> APIMessage \<Rightarrow> APIMessage" where
  "getLanguagePluginLibPath env message =
     (let language = (case MessageBody message of LibPathRequestBody l \<Rightarrow> l | _ \<Rightarrow> [])
      in case GetInstallDir env language [] of
           Inl err \<Rightarrow> getErrorMessage env err
         | Inr languageInstallDir \<Rightarrow>
             (case GetRunnerInfoLib env language of
                Inl err \<Rightarrow> getErrorMessage env err
              | Inr relativeLibPath \<Rightarrow>
                  (let libPath = path_Join env languageInstallDir relativeLibPath
                   in \<lparr>MessageType = GetLanguagePluginLibPathResponse,
                       MessageId = MessageId message,
                       MessageBody = LibPathResponseBody libPath\<rparr>)))"

definition performRefactoring :: "apiCollaborators \<Rightarrow> APIMessage \<Rightarrow> APIMessage" where
  "performRefactoring env message =
     (let (oldStep, newStep) =
            (case MessageBody message of
               PerformRefactoringRequestBody old new \<Rightarrow> (old, new)
             | _ \<Rightarrow> ([], []));
          (success, errors, filesChanged) = PerformRephraseRefactoring env oldStep newStep
      in \<lparr>MessageType = PerformRefactoringResponse, MessageId = MessageId message,
          MessageBody = PerformRefactoringResponseBody success errors filesChanged\<rparr>)"

text \<open>
  \<open>extractConcept\<close> takes the message of the error it gets without a test for nil: with a
  nil error the handler panics, which is the result \<open>None\<close>.
\<close>

definition extractConcept :: "apiCollaborators \<Rightarrow> APIMessage \<Rightarrow> APIMessage option" where
  "extractConcept env message =
     (let (success, err, filesChanged) =
            (case MessageBody message of
               ExtractConceptRequestBody conceptName steps conceptFileName changeAcrossProject
                   selectedTextInfo \<Rightarrow>
                 ExtractConcept env conceptName steps conceptFileName changeAcrossProject
                   selectedTextInfo
             | _ \<Rightarrow> ExtractConcept env [] [] [] False [])
      in case err of
           None \<Rightarrow> None
         | Some errText \<Rightarrow>
             Some \<lparr>MessageType = ExtractConceptResponse, MessageId = MessageId message,
                   MessageBody = ExtractConceptResponseBody success errText filesChanged\<rparr>)"

definition formatSpecs :: "apiCollaborators \<Rightarrow> APIMessage \<Rightarrow> APIMessage" where
  "formatSpecs env message =
     (let specs = (case MessageBody message of FormatSpecsRequestBody specs \<Rightarrow> specs | _ \<Rightarrow> []);
          results = FormatSpecFiles env specs;
          (warnings, errors) =
            foldl (\<lambda>(warnings, errors) (parseError, resultWarnings).
                     (let errors = (case parseError of None \<Rightarrow> errors | Some e \<Rightarrow> errors @ [e]);
                          warnings = (case resultWarnings of
                                        None \<Rightarrow> warnings
                                      | Some warningTexts \<Rightarrow> warnings @ warningTexts)
                      in (warnings, errors)))
              ([], []) results
      in \<lparr>MessageType = FormatSpecsResponse, MessageId = MessageId message,
          MessageBody = FormatSpecsResponseBody errors warnings\<rparr>)"

definition createUnsupportedAPIMessageResponse :: "APIMessage \<Rightarrow> APIMessage" where
  "createUnsupportedAPIMessageResponse message =
     \<lparr>MessageType = UnsupportedApiMessageResponse, MessageId = MessageId message,
      MessageBody = UnsupportedApiMessageResponseBody\<rparr>"

text \<open>
  \<open>MessageBytesReceived\<close>: the result is the response handed to \<open>sendMessage\<close>, which
  writes it to the connection. Log entries are not modelled.
\<close>

definition MessageBytesReceived :: "apiCollaborators \<Rightarrow> string \<Rightarrow> APIMessage option" where
  "MessageBytesReceived env bytesRead =
     (case proto_Unmarshal env bytesRead of
        Inl err \<Rightarrow> Some (getErrorMessage env err)
      | Inr apiMessage \<Rightarrow>
          (case MessageType apiMessage of
             GetProjectRootRequest \<Rightarrow> Some (projectRootRequestResponse env apiMessage)
           | GetInstallationRootRequest \<Rightarrow> Some (installationRootRequestResponse env apiMessage)
           | GetAllStepsRequest \<Rightarrow> Some (getAllStepsRequestResponse env apiMessage)
           | GetAllSpecsRequest \<Rightarrow> Some (getAllSpecsRequestResponse env apiMessage)
           | GetStepValueRequest \<Rightarrow> Some (getStepValueRequestResponse env apiMessage)
           | GetLanguagePluginLibPathRequest \<Rightarrow> Some (getLanguagePluginLibPath env apiMessage)
           | GetAllConceptsRequest \<Rightarrow> Some (getAllConceptsRequestResponse env apiMessage)
           | PerformRefactoringRequest \<Rightarrow> Some (performRefactoring env apiMessage)
           | ExtractConceptRequest \<Rightarrow> extractConcept env apiMessage
           | FormatSpecsRequest \<Rightarrow> Some (formatSpecs env apiMessage)
           | _ \<Rightarrow> Some (createUnsupportedAPIMessageResponse apiMessage)))"

subsection \<open>Message identifiers of the responses\<close>

lemmas handler_defs = getErrorResponse_def getErrorMessage_def projectRootRequestResponse_def
  installationRootRequestResponse_def getAllStepsRequestResponse_def
  getAllSpecsRequestResponse_def getStepValueRequestResponse_def
  getAllConceptsRequestResponse_def getLanguagePluginLibPath_def performRefactoring_def
  extractConcept_def formatSpecs_def createUnsupportedAPIMessageResponse_def

text \<open>A payload that does not decode is answered with an error under a fresh identifier.\<close>

lemma decode_failure_fresh_id:
  "proto_Unmarshal env bytesRead = Inl err \<Longrightarrow>
     MessageBytesReceived env bytesRead
       = Some \<lparr>MessageType = ErrorResponse, MessageId = Some (GetUniqueID env),
               MessageBody = ErrorResponseBody err\<rparr>"
  by (simp add: MessageBytesReceived_def getErrorMessage_def)

text \<open>
  Every response to a decoded message of another type than the request for the library
  path of a language plugin has the identifier of the request, be it an error or not.
\<close>

lemma handlers_echo_id:
  assumes "proto_Unmarshal env bytesRead = Inr apiMessage"
    and "MessageType apiMessage \<noteq> GetLanguagePluginLibPathRequest"
    and "MessageBytesReceived env bytesRead = Some response"
  shows "MessageId response = MessageId apiMessage"
  using assms
  by (cases "MessageType apiMessage")
     (auto simp: MessageBytesReceived_def handler_defs Let_def
           split: sum.splits prod.splits option.splits)

lemma step_value_failure_echoes_id:
  assumes "proto_Unmarshal env bytesRead = Inr apiMessage"
    and "MessageType apiMessage = GetStepValueRequest"
    and "MessageBody apiMessage = StepValueRequestBody stepText hasInlineTable"
    and "ExtractStepValueAndParams env stepText hasInlineTable = Inl err"
  shows "MessageBytesReceived env bytesRead
           = Some \<lparr>MessageType = ErrorResponse, MessageId = MessageId apiMessage,
                   MessageBody = ErrorResponseBody err\<rparr>"
  using assms by (simp add: MessageBytesReceived_def handler_defs)

text \<open>
  The response to a request for the library path has the identifier of the request when
  the handler succeeds and a fresh one when it fails.
\<close>

lemma lib_path_response_id:
  assumes "proto_Unmarshal env bytesRead = Inr apiMessage"
    and "MessageType apiMessage = GetLanguagePluginLibPathRequest"
    and "MessageBytesReceived env bytesRead = Some response"
  shows "MessageId response =
           (if MessageType response = ErrorResponse then Some (GetUniqueID env)
            else MessageId apiMessage)"
  using assms
  by (auto simp: MessageBytesReceived_def handler_defs Let_def split: sum.splits)

text \<open>
  A service in which the plugin of no language is installed. The one payload it decodes
  is a request, with the identifier \<open>7\<close>, for the library path of the \<open>java\<close> plugin; the
  next unique identifier is \<open>1446336000\<close>.
\<close>

definition exampleService :: apiCollaborators where
  "exampleService =
     \<lparr>proto_Unmarshal =
        (\<lambda>bytes. if bytes = ''lib path of java''
                  then Inr \<lparr>MessageType = GetLanguagePluginLibPathRequest, MessageId = Some 7,
                            MessageBody = LibPathRequestBody ''java''\<rparr>
                  else Inl ''proto: bad message''),
      GetUniqueID = 1446336000,
      ProjectRoot = ''/project'',
      GetInstallationPrefix = Inr ''/usr/local'',
      GetAvailableSteps = [],
      ConvertToProtoStepValue = StepValue,
      GetAvailableSpecs = [],
      ConvertToProtoSpec = SpecHeading,
      GetConceptInfos = [],
      ExtractStepValueAndParams = (\<lambda>stepText hasInlineTable. Inl ''no step text''),
      GetInstallDir = (\<lambda>language version. Inl (''Plugin '' @ language @ '' not installed'')),
      GetRunnerInfoLib = (\<lambda>language. Inl (''No runner for '' @ language)),
      path_Join = (\<lambda>dir file. dir @ ''/'' @ file),
      PerformRephraseRefactoring = (\<lambda>oldStep newStep. (False, [''no such step''], [])),
      ExtractConcept = (\<lambda>name steps file across info. (False, Some ''nothing selected'', [])),
      FormatSpecFiles = (\<lambda>specs. [])\<rparr>"

text \<open>
  Claim C9, at an input on which the code departs from it. The request decodes and its
  handler fails, as the plugin is not installed. The error response does not carry the
  identifier \<open>7\<close> of the request but the fresh one: \<open>getLanguagePluginLibPath\<close> builds it
  with \<open>getErrorMessage\<close>, where \<open>getStepValueRequestResponse\<close> uses \<open>getErrorResponse\<close>.
\<close>

theorem lib_path_failure_does_not_echo_id:
  "proto_Unmarshal exampleService ''lib path of java''
     = Inr \<lparr>MessageType = GetLanguagePluginLibPathRequest, MessageId = Some 7,
            MessageBody = LibPathRequestBody ''java''\<rparr>
   \<and> MessageBytesReceived exampleService ''lib path of java''
     = Some \<lparr>MessageType = ErrorResponse, MessageId = Some 1446336000,
             MessageBody = ErrorResponseBody ''Plugin java not installed''\<rparr>
   \<and> map_option MessageId (MessageBytesReceived exampleService ''lib path of java'') \<noteq> Some (Some 7)"
  by (simp add: MessageBytesReceived_def getLanguagePluginLibPath_def getErrorMessage_def
      exampleService_def)

section \<open>The parallel execution coordinator (package execution)\<close>

text \<open>
  Of the coordinator the sources hold the test only. Its types and functions are
  modelled from the spec's section on the coordinator, with the names the test uses.
\<close>

text \<open>
  Modelled from the spec: the error of a stream carries the specs that were not executed
  and a reason. The struct \<open>streamExecError\<close> is missing from the sources.
\<close>

record streamExecError =
  specsSkipped :: "string list"
  message :: string

text \<open>
  Modelled from the spec: the method \<open>Error\<close> of \<open>streamExecError\<close>, missing from the
  sources. The text is the line \<open>The following specifications could not be executed:\<close>,
  one line for each spec, and \<open>Reason : \<close> with the message and a full stop.
\<close>

definition streamExecError_Error :: "streamExecError \<Rightarrow> string" where
  "streamExecError_Error e =
     (let specNames = foldl (\<lambda>names spec. names @ spec @ [CHR 0x0A]) [] (specsSkipped e)
      in ''The following specifications could not be executed:'' @ [CHR 0x0A] @ specNames
         @ ''Reason : '' @ message e @ ''.'')"

text \<open>
  Modelled from the spec: the result of a suite, of package \<open>result\<close>, missing from the
  sources. A spec result is known by the name of its spec, a hook failure by its
  message; the numbers are integers, as the spec's sums are.
\<close>

datatype SpecResult = SpecResult string

record SuiteResult =
  SpecResults :: "SpecResult list"
  PreSuite :: "string option"
  PostSuite :: "string option"
  IsFailed :: bool
  SpecsFailedCount :: int
  ExecutionTime :: int
  UnhandledErrors :: "streamExecError list"
  SpecsSkippedCount :: int

text \<open>
  Modelled from the spec: the coordinator, missing from the sources, with the number of
  streams asked for, the selected specs and the entries of the validation error map of
  specs (each a spec and its errors).
\<close>

record parallelExecution =
  numberOfExecutionStreams :: nat
  specs :: "Specification list"
  specErrs :: "(Specification \<times> string list) list"

text \<open>
  Modelled from the spec: \<open>getNumberOfStreams\<close>, missing from the sources, is the spec's
  \<open>effectiveN = min(N, len(specs))\<close>.
\<close>

definition getNumberOfStreams :: "parallelExecution \<Rightarrow> nat" where
  "getNumberOfStreams e = min (numberOfExecutionStreams e) (length (specs e))"

text \<open>Modelled from the spec: the empty suite result, missing from the sources.\<close>

definition emptySuiteResult :: SuiteResult where
  "emptySuiteResult =
     \<lparr>SpecResults = [], PreSuite = None, PostSuite = None, IsFailed = False,
      SpecsFailedCount = 0, ExecutionTime = 0, UnhandledErrors = [], SpecsSkippedCount = 0\<rparr>"

text \<open>
  Modelled from the spec: the merge of one stream's result into the aggregate, part of
  \<open>aggregateResults\<close>, missing from the sources. Times and failure counts are summed,
  spec results concatenated, the aggregate has failed when a stream has, a hook failure
  replaces an earlier one, and a non-empty list of unhandled errors is appended.
\<close>

definition mergeResult :: "SuiteResult \<Rightarrow> SuiteResult \<Rightarrow> SuiteResult" where
  "mergeResult aggregateResult result =
     aggregateResult
       \<lparr>ExecutionTime := ExecutionTime aggregateResult + ExecutionTime result,
        SpecsFailedCount := SpecsFailedCount aggregateResult + SpecsFailedCount result,
        SpecResults := SpecResults aggregateResult @ SpecResults result,
        IsFailed := (if IsFailed result then True else IsFailed aggregateResult),
        PreSuite := (case PreSuite result of
                       None \<Rightarrow> PreSuite aggregateResult | Some failure \<Rightarrow> Some failure),
        PostSuite := (case PostSuite result of
                        None \<Rightarrow> PostSuite aggregateResult | Some failure \<Rightarrow> Some failure),
        UnhandledErrors := (if UnhandledErrors result \<noteq> []
                            then UnhandledErrors aggregateResult @ UnhandledErrors result
                            else UnhandledErrors aggregateResult)\<rparr>"

text \<open>
  Modelled from the spec: \<open>aggregateResults\<close>, missing from the sources, merges the
  results of the streams in order and counts one skipped spec for each entry of the
  validation error map.
\<close>

definition aggregateResults :: "parallelExecution \<Rightarrow> SuiteResult list \<Rightarrow> SuiteResult" where
  "aggregateResults e suiteResults =
     (foldl mergeResult emptySuiteResult suiteResults)
       \<lparr>SpecsSkippedCount := int (length (specErrs e))\<rparr>"

text \<open>
  Modelled from the spec: the run of the coordinator, missing from the sources. With no
  stream the result is the empty suite result; otherwise the specs are split over the
  streams, each stream is executed and the results are aggregated. How the specs are
  split and what a stream's execution returns are parameters.
\<close>

definition executeInParallel ::
  "parallelExecution \<Rightarrow> (nat \<Rightarrow> Specification list \<Rightarrow> Specification list list)
     \<Rightarrow> (Specification list \<Rightarrow> SuiteResult) \<Rightarrow> SuiteResult" where
  "executeInParallel e split executeStream =
     (let effectiveN = getNumberOfStreams e
      in if effectiveN = 0 then emptySuiteResult
         else aggregateResults e (map executeStream (split effectiveN (specs e))))"

subsection \<open>The number of streams\<close>

text \<open>
  Claim C5. For \<open>N\<close> streams asked for and \<open>K\<close> selected specs the coordinator uses
  \<open>min N K\<close> streams, never more than asked for and never more than there are specs.
  Without specs it uses no stream, and its result is the empty suite result.
\<close>

theorem number_of_streams_saturates:
  "getNumberOfStreams e = min (numberOfExecutionStreams e) (length (specs e))
   \<and> getNumberOfStreams e \<le> numberOfExecutionStreams e
   \<and> getNumberOfStreams e \<le> length (specs e)
   \<and> (length (specs e) = 0 \<longrightarrow>
         getNumberOfStreams e = 0
         \<and> executeInParallel e split executeStream = emptySuiteResult)"
  by (simp add: getNumberOfStreams_def executeInParallel_def)

text \<open>The theorem for \<open>17\<close> streams and no spec, the third case of the test.\<close>

theorem number_of_streams_saturates_example:
  "length (specs \<lparr>numberOfExecutionStreams = 17, specs = [], specErrs = []\<rparr>) = 0
   \<and> getNumberOfStreams \<lparr>numberOfExecutionStreams = 17, specs = [], specErrs = []\<rparr> = 0
   \<and> executeInParallel \<lparr>numberOfExecutionStreams = 17, specs = [], specErrs = []\<rparr>
         (\<lambda>n specs. replicate n specs) (\<lambda>specs. emptySuiteResult\<lparr>IsFailed := True\<rparr>)
       = emptySuiteResult"
  using number_of_streams_saturates
    [of "\<lparr>numberOfExecutionStreams = 17, specs = [], specErrs = []\<rparr>"
        "\<lambda>n specs. replicate n specs" "\<lambda>specs. emptySuiteResult\<lparr>IsFailed := True\<rparr>"]
  by simp

text \<open>The first two cases of the test: six specs, five and ten streams asked for.\<close>

lemma TestGetNumberOfStreams:
  "length specs6 = 6 \<Longrightarrow>
     getNumberOfStreams \<lparr>numberOfExecutionStreams = 5, specs = specs6, specErrs = []\<rparr> = 5
     \<and> getNumberOfStreams \<lparr>numberOfExecutionStreams = 10, specs = specs6, specErrs = []\<rparr> = 6"
  by (simp add: getNumberOfStreams_def)

subsection \<open>Aggregation\<close>

lemma foldl_mergeResult:
  "ExecutionTime (foldl mergeResult a rs) = ExecutionTime a + sum_list (map ExecutionTime rs)"
  "SpecsFailedCount (foldl mergeResult a rs)
     = SpecsFailedCount a + sum_list (map SpecsFailedCount rs)"
  "SpecResults (foldl mergeResult a rs) = SpecResults a @ concat (map SpecResults rs)"
  "IsFailed (foldl mergeResult a rs) = (IsFailed a \<or> (\<exists>r \<in> set rs. IsFailed r))"
  "UnhandledErrors (foldl mergeResult a rs)
     = UnhandledErrors a @ concat (map UnhandledErrors rs)"
  by (induction rs arbitrary: a; auto simp: mergeResult_def)+

text \<open>
  Claim C6. For every list of results of streams, the execution time of the aggregate is
  the sum of the streams' execution times, its spec results are the streams' spec
  results one after the other, so their number is the sum of the streams' numbers, its
  count of failed specs is the sum of the streams' counts, and it has failed exactly
  when some stream has.
\<close>

theorem aggregate_sums:
  "ExecutionTime (aggregateResults e rs) = sum_list (map ExecutionTime rs)
   \<and> SpecResults (aggregateResults e rs) = concat (map SpecResults rs)
   \<and> length (SpecResults (aggregateResults e rs))
       = sum_list (map (\<lambda>r. length (SpecResults r)) rs)
   \<and> SpecsFailedCount (aggregateResults e rs) = sum_list (map SpecsFailedCount rs)
   \<and> IsFailed (aggregateResults e rs) = (\<exists>r \<in> set rs. IsFailed r)"
  by (simp add: aggregateResults_def foldl_mergeResult emptySuiteResult_def length_concat
      comp_def)

text \<open>The test of the aggregation: three streams with two spec results each.\<close>

lemma TestAggregationOfSuiteResult:
  "(let suiteRes1 = emptySuiteResult\<lparr>ExecutionTime := 1, SpecsFailedCount := 1, IsFailed := True,
                      SpecResults := [SpecResult ''a'', SpecResult ''b'']\<rparr>;
        suiteRes2 = emptySuiteResult\<lparr>ExecutionTime := 3, SpecsFailedCount := 0, IsFailed := False,
                      SpecResults := [SpecResult ''c'', SpecResult ''d'']\<rparr>;
        suiteRes3 = emptySuiteResult\<lparr>ExecutionTime := 5, SpecsFailedCount := 0, IsFailed := False,
                      SpecResults := [SpecResult ''e'', SpecResult ''f'']\<rparr>;
        aggregatedRes = aggregateResults
                          \<lparr>numberOfExecutionStreams = 3, specs = [], specErrs = []\<rparr>
                          [suiteRes1, suiteRes2, suiteRes3]
    in SpecsFailedCount aggregatedRes = 1 \<and> IsFailed aggregatedRes = True
       \<and> length (SpecResults aggregatedRes) = 6 \<and> SpecsSkippedCount aggregatedRes = 0
       \<and> ExecutionTime aggregatedRes = 9)"
  by (simp add: aggregateResults_def mergeResult_def emptySuiteResult_def)

subsection \<open>Errors of streams\<close>

lemma specNames_concat:
  "foldl (\<lambda>names spec. names @ spec @ [CHR 0x0A]) acc skipped
     = acc @ concat (map (\<lambda>spec. spec @ [CHR 0x0A]) skipped)"
  by (induction skipped arbitrary: acc) auto

text \<open>
  Claim C7. For every error of a stream, with the skipped specs \<open>skipped\<close> and the message
  \<open>m\<close>, the method \<open>Error\<close> returns the line
  \<open>The following specifications could not be executed:\<close>, then one line for each
  skipped spec, then \<open>Reason : m.\<close> without a line end. The unhandled errors of the
  aggregate are the unhandled errors of the streams, one list after the other, so every
  such error is kept, in order.
\<close>

theorem stream_error_format_and_aggregation:
  "streamExecError_Error \<lparr>specsSkipped = skipped, message = m\<rparr>
     = ''The following specifications could not be executed:'' @ [CHR 0x0A]
       @ concat (map (\<lambda>spec. spec @ [CHR 0x0A]) skipped) @ ''Reason : '' @ m @ ''.''
   \<and> UnhandledErrors (aggregateResults e rs) = concat (map UnhandledErrors rs)"
  by (simp add: streamExecError_Error_def specNames_concat aggregateResults_def
      foldl_mergeResult emptySuiteResult_def)

text \<open>
  The test of the aggregation with unhandled errors: two streams whose runner failed to
  start and one stream without errors, with one entry in the validation error map.
\<close>

lemma TestAggregationOfSuiteResultWithUnhandledErrors:
  "(let suiteRes1 = emptySuiteResult\<lparr>IsFailed := True, UnhandledErrors :=
                      [\<lparr>specsSkipped = [''spec1'', ''spec2''],
                        message = ''Runner failed to start''\<rparr>]\<rparr>;
        suiteRes2 = emptySuiteResult\<lparr>IsFailed := False, UnhandledErrors :=
                      [\<lparr>specsSkipped = [''spec3'', ''spec4''],
                        message = ''Runner failed to start''\<rparr>]\<rparr>;
        suiteRes3 = emptySuiteResult\<lparr>IsFailed := False\<rparr>;
        aggregatedRes = aggregateResults
                          \<lparr>numberOfExecutionStreams = 3, specs = [],
                           specErrs = [(\<lparr>SpecHeading = [], SpecTags = None, Items = []\<rparr>, [])]\<rparr>
                          [suiteRes1, suiteRes2, suiteRes3]
    in length (UnhandledErrors aggregatedRes) = 2
       \<and> streamExecError_Error (UnhandledErrors aggregatedRes ! 0)
           = ''The following specifications could not be executed:'' @ [CHR 0x0A]
             @ ''spec1'' @ [CHR 0x0A] @ ''spec2'' @ [CHR 0x0A]
             @ ''Reason : Runner failed to start.''
       \<and> streamExecError_Error (UnhandledErrors aggregatedRes ! 1)
           = ''The following specifications could not be executed:'' @ [CHR 0x0A]
             @ ''spec3'' @ [CHR 0x0A] @ ''spec4'' @ [CHR 0x0A]
             @ ''Reason : Runner failed to start.''
       \<and> length (specsSkipped (UnhandledErrors aggregatedRes ! 0)) = 2
       \<and> SpecsSkippedCount aggregatedRes = 1)"
  by (simp add: aggregateResults_def mergeResult_def emptySuiteResult_def
      streamExecError_Error_def)

text \<open>The test of the aggregation with hook failures: the last failure of each hook is kept.\<close>

lemma TestAggregationOfSuiteResultWithHook:
  "(let suiteRes1 = emptySuiteResult\<lparr>PreSuite := Some ''first''\<rparr>;
        suiteRes2 = emptySuiteResult\<lparr>PreSuite := Some ''second''\<rparr>;
        suiteRes3 = emptySuiteResult\<lparr>PostSuite := Some ''third''\<rparr>;
        aggregatedRes = aggregateResults
                          \<lparr>numberOfExecutionStreams = 3, specs = [], specErrs = []\<rparr>
                          [suiteRes1, suiteRes2, suiteRes3]
    in PreSuite aggregatedRes = PreSuite suiteRes2
       \<and> PostSuite aggregatedRes = PostSuite suiteRes3)"
  by (simp add: aggregateResults_def mergeResult_def emptySuiteResult_def)

end
